theory Spec2Isabelle
  imports Main
begin

section \<open>Strings of the Go standard library\<close>

text \<open>
  A Go string is a sequence of bytes; so is \<^typ>\<open>string\<close>.  The functions below are the
  ones of package \<^verbatim>\<open>strings\<close> that \<^verbatim>\<open>pkg/method/method.go\<close> calls.
\<close>

definition HasPrefix :: "string \<Rightarrow> string \<Rightarrow> bool" where
  "HasPrefix s p = (length p \<le> length s \<and> take (length p) s = p)"

definition HasSuffix :: "string \<Rightarrow> string \<Rightarrow> bool" where
  "HasSuffix s p = (length p \<le> length s \<and> drop (length s - length p) s = p)"

definition TrimPrefix :: "string \<Rightarrow> string \<Rightarrow> string" where
  "TrimPrefix s p = (if HasPrefix s p then drop (length p) s else s)"

definition TrimSuffix :: "string \<Rightarrow> string \<Rightarrow> string" where
  "TrimSuffix s p = (if HasSuffix s p then take (length s - length p) s else s)"

text \<open>
  \<^verbatim>\<open>strings.SplitN(s, sep, 2)\<close> for a separator of one byte: the string itself when the
  separator does not occur, otherwise the parts before and after its first occurrence.
\<close>

definition SplitN2 :: "string \<Rightarrow> char \<Rightarrow> string list" where
  "SplitN2 s c =
     (if c \<in> set s then [takeWhile (\<lambda>x. x \<noteq> c) s, tl (dropWhile (\<lambda>x. x \<noteq> c) s)] else [s])"

text \<open>
  \<^verbatim>\<open>strings.TrimSpace\<close> removes the leading and the trailing white space, as Unicode
  defines it, from a string read as UTF-8.  The white-space code points are the six of
  ASCII (tab, line feed, vertical tab, form feed, carriage return, space), U+0085 and
  U+00A0, and U+1680, U+2000 to U+200A, U+2028, U+2029, U+202F, U+205F and U+3000.
  Their encodings are the byte sequences below; a byte that starts none of them decodes
  to a code point (or to the replacement for an invalid byte) that is not white space.
\<close>

definition asciiSpace :: "char \<Rightarrow> bool" where
  "asciiSpace c = (c = CHR 0x09 \<or> c = CHR 0x0A \<or> c = CHR 0x0B \<or> c = CHR 0x0C
                    \<or> c = CHR 0x0D \<or> c = CHR 0x20)"

definition spaceRunes :: "string list" where
  "spaceRunes =
     [[CHR 0xC2, CHR 0x85], [CHR 0xC2, CHR 0xA0], [CHR 0xE1, CHR 0x9A, CHR 0x80],
      [CHR 0xE2, CHR 0x80, CHR 0x80], [CHR 0xE2, CHR 0x80, CHR 0x81],
      [CHR 0xE2, CHR 0x80, CHR 0x82], [CHR 0xE2, CHR 0x80, CHR 0x83],
      [CHR 0xE2, CHR 0x80, CHR 0x84], [CHR 0xE2, CHR 0x80, CHR 0x85],
      [CHR 0xE2, CHR 0x80, CHR 0x86], [CHR 0xE2, CHR 0x80, CHR 0x87],
      [CHR 0xE2, CHR 0x80, CHR 0x88], [CHR 0xE2, CHR 0x80, CHR 0x89],
      [CHR 0xE2, CHR 0x80, CHR 0x8A], [CHR 0xE2, CHR 0x80, CHR 0xA8],
      [CHR 0xE2, CHR 0x80, CHR 0xA9], [CHR 0xE2, CHR 0x80, CHR 0xAF],
      [CHR 0xE2, CHR 0x81, CHR 0x9F], [CHR 0xE3, CHR 0x80, CHR 0x80]]"

text \<open>The width in bytes of the white-space code point at the head of a string, 0 if none.\<close>

definition leadingSpace :: "string \<Rightarrow> nat" where
  "leadingSpace s =
     (case s of [] \<Rightarrow> 0
      | c # _ \<Rightarrow>
          if asciiSpace c then 1
          else (case filter (HasPrefix s) spaceRunes of [] \<Rightarrow> 0 | p # _ \<Rightarrow> length p))"

text \<open>The same at the end of a string.\<close>

definition trailingSpace :: "string \<Rightarrow> nat" where
  "trailingSpace s =
     (if s = [] then 0
      else if asciiSpace (last s) then 1
      else (case filter (HasSuffix s) spaceRunes of [] \<Rightarrow> 0 | p # _ \<Rightarrow> length p))"

function TrimLeft :: "string \<Rightarrow> string" where
  "TrimLeft s = (if leadingSpace s = 0 then s else TrimLeft (drop (leadingSpace s) s))"
  by pat_completeness auto
termination
proof (relation "measure length")
  show "wf (measure length)" by simp
next
  fix s :: string
  assume "leadingSpace s \<noteq> 0"
  then have "s \<noteq> []"
    by (auto simp: leadingSpace_def)
  then show "(drop (leadingSpace s) s, s) \<in> measure length"
    using \<open>leadingSpace s \<noteq> 0\<close> by simp
qed

function TrimRight :: "string \<Rightarrow> string" where
  "TrimRight s =
     (if trailingSpace s = 0 then s else TrimRight (take (length s - trailingSpace s) s))"
  by pat_completeness auto
termination
proof (relation "measure length")
  show "wf (measure length)" by simp
next
  fix s :: string
  assume "trailingSpace s \<noteq> 0"
  then have "s \<noteq> []"
    by (auto simp: trailingSpace_def)
  then show "(take (length s - trailingSpace s) s, s) \<in> measure length"
    using \<open>trailingSpace s \<noteq> 0\<close> by simp
qed

declare TrimLeft.simps [simp del] TrimRight.simps [simp del]

definition TrimSpace :: "string \<Rightarrow> string" where
  "TrimSpace s = TrimRight (TrimLeft s)"

text \<open>
  \<^verbatim>\<open>strconv.ParseUint(s, 10, 64)\<close>: a non-empty string of decimal digits whose value is
  below \<open>2 ^ 64\<close>; anything else is an error.
\<close>

definition isDigit :: "char \<Rightarrow> bool" where
  "isDigit c = (48 \<le> (of_char c :: nat) \<and> (of_char c :: nat) \<le> 57)"

definition ParseUint :: "string \<Rightarrow> nat option" where
  "ParseUint s =
     (if s = [] \<or> \<not> list_all isDigit s then None
      else
        let n = foldl (\<lambda>a c. 10 * a + (of_char c - 48)) (0::nat) s
        in if n < 2 ^ 64 then Some n else None)"

section \<open>Errors\<close>

text \<open>
  Go errors are values.  The sentinel errors of package \<^verbatim>\<open>io\<close> are constructors, an error
  built from a constant text keeps its text, an error built with a format keeps the
  arguments of the format, and \<open>Wrapped\<close> is the \<^verbatim>\<open>%w\<close> verb: the only constructors that
  \<^verbatim>\<open>errors.Is\<close> looks through.  \<open>ErrSkipDesc\<close> is the sentinel of that name of
  containerd's package \<^verbatim>\<open>images\<close>, and \<open>ExternalError\<close> is any other error of a
  collaborator (registry client, file system, JSON decoder).
\<close>

datatype error =
    EOF
  | ErrClosedPipe
  | ErrNoProgress
  | ErrShortBuffer
  | ErrSkipDesc
  | ExternalError string
  | ErrorString string
  | MissingField string
  | LacksPrefix string string
  | ParseRefFailed string string string error
  | CreateResolverFailed string string error
  | ResolveFailed string error
  | FileNotFound string string
  | DigestMismatch string string string
  | NotAHeaderSpec string
  | BadStatusCode string
  | EmptyDescription string
  | InvalidFieldFormat string
  | ErrorGroup string "error list"

text \<open>
  \<^verbatim>\<open>errors.Is(err, target)\<close>: \<open>err\<close> or an error that it wraps equals the target.  An
  error group is made by \<^verbatim>\<open>errors.New\<close> from the texts of its members and wraps nothing.
\<close>

fun errors_Is :: "error \<Rightarrow> error \<Rightarrow> bool" where
  "errors_Is (ParseRefFailed a b c e) t = (ParseRefFailed a b c e = t \<or> errors_Is e t)"
| "errors_Is (CreateResolverFailed a b e) t = (CreateResolverFailed a b e = t \<or> errors_Is e t)"
| "errors_Is (ResolveFailed a e) t = (ResolveFailed a e = t \<or> errors_Is e t)"
| "errors_Is e t = (e = t)"

text \<open>
  A call of Go returns, or the process ends in it: by a panic that nothing recovers, or
  by a fatal error of the runtime.
\<close>

datatype 'a go = Returns 'a | Panics string

section \<open>The reference and URI resolver\<close>

text \<open>\<^verbatim>\<open>parseURI\<close> returns the triple \<^verbatim>\<open>(repo, path, err)\<close> of the source.\<close>

definition parseURI :: "string \<Rightarrow> string \<times> string \<times> error option" where
  "parseURI uri =
     (let trimmed = TrimPrefix uri ''oci://'' in
      if trimmed = uri then ([], [], Some (ErrorString ''missing oci:// protocol in uri''))
      else
        let split = SplitN2 trimmed CHR '':'' in
        if length split < 2 then ([], [], Some (ErrorString ''uri is missing repo tag''))
        else
          let repo = ''oci://'' @ split ! 0 @ '':'';
              tagAndFile = SplitN2 (split ! 1) CHR ''/'';
              repo = repo @ tagAndFile ! 0 @ ''/'';
              path = (if length tagAndFile > 1 then tagAndFile ! 1 else [])
          in (repo, path, None))"



section \<open>The message framer\<close>

record Message =
  StatusCode :: nat
  Description :: string
  Fields :: "string \<rightharpoonup> string"

text \<open>\<^verbatim>\<open>msg.Fields[key]\<close>: the empty string for a key that is absent.\<close>

definition FieldOf :: "Message \<Rightarrow> string \<Rightarrow> string" where
  "FieldOf msg key = (case Fields msg key of None \<Rightarrow> [] | Some v \<Rightarrow> v)"

text \<open>
  The input stream under the \<^verbatim>\<open>bufio.Reader\<close>: the bytes still to come, among them the
  errors that a read may return before the end, and the error that every read returns
  once the input is used up (\<open>EOF\<close> for a file or a pipe closed by its writer,
  \<open>ErrClosedPipe\<close> for a pipe closed on the reading side).
\<close>

datatype input = Byte char | Fault error

record Reader =
  pending :: "input list"
  final :: error

text \<open>
  \<^verbatim>\<open>reader.ReadString('\n')\<close>: the bytes up to and including the first line feed, or the
  bytes before the error that came first, with that error.
\<close>

fun readLineFrom :: "input list \<Rightarrow> error \<Rightarrow> string \<times> error option \<times> input list" where
  "readLineFrom [] fin = ([], Some fin, [])"
| "readLineFrom (Fault e # xs) fin = ([], Some e, xs)"
| "readLineFrom (Byte c # xs) fin =
     (if c = CHR 0x0A then ([c], None, xs)
      else (case readLineFrom xs fin of (l, e, rest) \<Rightarrow> (c # l, e, rest)))"

definition ReadString :: "Reader \<Rightarrow> (string \<times> error option) \<times> Reader" where
  "ReadString rd =
     (case readLineFrom (pending rd) (final rd) of
        (l, e, rest) \<Rightarrow> ((l, e), rd\<lparr>pending := rest\<rparr>))"

record MessageReader =
  reader :: Reader
  message :: "Message option"

definition NewMessageReader :: "Reader \<Rightarrow> MessageReader" where
  "NewMessageReader rd = \<lparr>reader = rd, message = None\<rparr>"

definition ParseHeader :: "string \<Rightarrow> error + Message" where
  "ParseHeader line0 =
     (let line = TrimSpace line0 in
      if line = [] then Inl (ErrorString ''not a header spec: Empty line'')
      else
        let parts = SplitN2 line CHR '' '' in
        if length parts \<noteq> 2 then Inl (NotAHeaderSpec line)
        else
          let codeStr = TrimSpace (parts ! 0) in
          case ParseUint codeStr of
            None \<Rightarrow> Inl (BadStatusCode codeStr)
          | Some code \<Rightarrow>
              let desc = TrimSpace (parts ! 1) in
              if desc = [] then Inl (EmptyDescription line)
              else Inr \<lparr>StatusCode = code, Description = desc, Fields = Map.empty\<rparr>)"

definition readHeader :: "MessageReader \<Rightarrow> (error + Message) \<times> MessageReader" where
  "readHeader r =
     (case ReadString (reader r) of
        ((line, Some err), rd) \<Rightarrow> (Inl err, r\<lparr>reader := rd\<rparr>)
      | ((line, None), rd) \<Rightarrow> (ParseHeader line, r\<lparr>reader := rd\<rparr>))"

definition commitMessage :: "MessageReader \<Rightarrow> Message option \<Rightarrow> Message option \<times> MessageReader" where
  "commitMessage r newmsg = (message r, r\<lparr>message := newmsg\<rparr>)"

text \<open>\<^verbatim>\<open>ReadLine\<close> returns the pair \<^verbatim>\<open>(*Message, error)\<close>, either of them possibly nil.\<close>

definition ReadLine :: "MessageReader \<Rightarrow> (Message option \<times> error option) \<times> MessageReader" where
  "ReadLine r =
     (case message r of
        None \<Rightarrow>
          (case readHeader r of
             (Inl err, r') \<Rightarrow> ((None, Some err), r')
           | (Inr msg, r') \<Rightarrow> ((None, None), r'\<lparr>message := Some msg\<rparr>))
      | Some cur \<Rightarrow>
          (case ReadString (reader r) of
             ((line, Some err), rd) \<Rightarrow>
               (case commitMessage (r\<lparr>reader := rd\<rparr>) None of (m, r') \<Rightarrow> ((m, Some err), r'))
           | ((line, None), rd) \<Rightarrow>
               let r1 = r\<lparr>reader := rd\<rparr>; line = TrimSpace line in
               if line = [] then
                 (case commitMessage r1 None of (m, r') \<Rightarrow> ((m, None), r'))
               else
                 let parts = SplitN2 line CHR '':'' in
                 if length parts \<noteq> 2 then
                   (case ParseHeader line of
                      Inl err \<Rightarrow> ((None, Some (InvalidFieldFormat line)), r1)
                    | Inr msg \<Rightarrow>
                        (case commitMessage r1 (Some msg) of
                           (m, r') \<Rightarrow>
                             ((m, Some (ErrorString
                                 ''new message started without old message ending'')), r')))
                 else
                   let key = TrimSpace (parts ! 0); val = TrimSpace (parts ! 1) in
                   ((None, None),
                    r1\<lparr>message := Some (cur\<lparr>Fields := (Fields cur)(key \<mapsto> val)\<rparr>)\<rparr>)))"

definition errorGroup :: "string \<Rightarrow> error list \<Rightarrow> error" where
  "errorGroup header errs = ErrorGroup header errs"

text \<open>
  \<^verbatim>\<open>ReadMessage\<close> calls \<^verbatim>\<open>ReadLine\<close> until it has a message.  The loop may run forever
  (a reader that fails for ever with an error other than \<open>EOF\<close> while no message is in
  progress), so the model counts the calls that are left: \<open>None\<close> is a loop that has not
  returned within them.
\<close>

fun ReadMessage ::
  "nat \<Rightarrow> MessageReader \<Rightarrow> error list \<Rightarrow> ((Message option \<times> error option) \<times> MessageReader) option"
where
  "ReadMessage 0 r errs = None"
| "ReadMessage (Suc n) r errs =
     (case ReadLine r of
        ((msg, Some err), r') \<Rightarrow>
          if msg \<noteq> None \<or> err = EOF then
            (if errs \<noteq> [] then
               Some ((msg, Some (errorGroup ''Errors while reading message:'' (errs @ [err]))), r')
             else Some ((msg, Some err), r'))
          else ReadMessage n r' (errs @ [err])
      | ((None, None), r') \<Rightarrow> ReadMessage n r' errs
      | ((Some m, None), r') \<Rightarrow>
          if errs \<noteq> [] then
            Some ((Some m, Some (errorGroup ''Errors while reading message:'' errs)), r')
          else Some ((Some m, None), r'))"

section \<open>Descriptors and the collaborators\<close>

text \<open>
  The fields of \<^verbatim>\<open>ocispec.Descriptor\<close> that the program reads.  A digest is the string
  \<^verbatim>\<open>algorithm:encoded\<close>; \<^verbatim>\<open>Algorithm()\<close> and \<^verbatim>\<open>Encoded()\<close> of package \<^verbatim>\<open>go-digest\<close> cut it
  at its first colon and panic when it has none.
\<close>

record Descriptor =
  MediaType :: string
  Digest :: string
  Size :: int
  Annotations :: "string \<rightharpoonup> string"

definition Annotation :: "Descriptor \<Rightarrow> string \<Rightarrow> string" where
  "Annotation d key = (case Annotations d key of None \<Rightarrow> [] | Some v \<Rightarrow> v)"

definition Algorithm :: "string \<Rightarrow> string go" where
  "Algorithm d =
     (if CHR '':'' \<in> set d then Returns (takeWhile (\<lambda>x. x \<noteq> CHR '':'') d)
      else Panics ''no : separator in digest'')"

definition Encoded :: "string \<Rightarrow> string go" where
  "Encoded d =
     (if CHR '':'' \<in> set d then Returns (tl (dropWhile (\<lambda>x. x \<noteq> CHR '':'') d))
      else Panics ''no : separator in digest'')"

definition MediaTypeDockerSchema2Manifest :: string where
  "MediaTypeDockerSchema2Manifest = ''application/vnd.docker.distribution.manifest.v2+json''"

definition MediaTypeImageManifest :: string where
  "MediaTypeImageManifest = ''application/vnd.oci.image.manifest.v1+json''"

definition MediaTypeDockerSchema2ManifestList :: string where
  "MediaTypeDockerSchema2ManifestList = ''application/vnd.docker.distribution.manifest.list.v2+json''"

definition MediaTypeImageIndex :: string where
  "MediaTypeImageIndex = ''application/vnd.oci.image.index.v1+json''"

definition AnnotationTitle :: string where
  "AnnotationTitle = ''org.opencontainers.image.title''"

text \<open>The title of a descriptor: its annotation \<^verbatim>\<open>ocispec.AnnotationTitle\<close>.\<close>

abbreviation titleOf :: "Descriptor \<Rightarrow> string" where
  "titleOf l \<equiv> Annotation l AnnotationTitle"

definition MediaTypeApplicationXBinary :: string where
  "MediaTypeApplicationXBinary = ''application/x-binary''"

definition MediaTypeApplicationOctetStream :: string where
  "MediaTypeApplicationOctetStream = ''application/octet-stream''"

definition CodeURIAcquire :: nat where "CodeURIAcquire = 600"
definition FieldURI :: string where "FieldURI = ''URI''"
definition FieldTargetRepoURI :: string where "FieldTargetRepoURI = ''Target-Repo-URI''"
definition FieldFilename :: string where "FieldFilename = ''Filename''"

text \<open>A parsed reference: what \<^verbatim>\<open>String()\<close> and \<^verbatim>\<open>Domain\<close> give for it.\<close>

record Named =
  refString :: string
  refDomain :: string

text \<open>
  Resolvers, fetchers, open blobs and open files are handles.  \<open>World\<close> is the behaviour
  of everything outside the program in one call: the reference parser, the registry
  client, the JSON decoder, the file system, the hash function and \<^verbatim>\<open>path.Clean\<close>.
  \<open>Copy w r\<close> is \<^verbatim>\<open>io.Copy\<close> from the blob \<open>r\<close> into the file \<open>w\<close> and the hasher: the
  bytes that went through, or the error of either side.  \<open>Schedule\<close> and \<open>FirstError\<close>
  are the choices of the Go scheduler among the goroutines of \<^verbatim>\<open>images.Dispatch\<close>, read
  below.
\<close>

type_synonym resolver = nat
type_synonym fetcher = nat
type_synonym readCloser = nat
type_synonym osFile = nat

record World =
  ParseDockerRef :: "string \<Rightarrow> error + Named"
  NewResolver :: "string \<Rightarrow> error + resolver"
  Resolve :: "resolver \<Rightarrow> string \<Rightarrow> error + (string \<times> Descriptor)"
  Fetcher :: "resolver \<Rightarrow> string \<Rightarrow> error + fetcher"
  Fetch :: "fetcher \<Rightarrow> Descriptor \<Rightarrow> error + readCloser"
  ReadAll :: "readCloser \<Rightarrow> error + string"
  UnmarshalManifest :: "string \<Rightarrow> error + Descriptor list"
  UnmarshalIndex :: "string \<Rightarrow> error + Descriptor list"
  Create :: "string \<Rightarrow> error + osFile"
  Copy :: "osFile \<Rightarrow> readCloser \<Rightarrow> error + string"
  CloseFile :: "osFile \<Rightarrow> error option"
  CloseReader :: "readCloser \<Rightarrow> error option"
  SHA256 :: "string \<Rightarrow> string"
  Clean :: "string \<Rightarrow> string"
  Schedule :: "nat list"
  FirstError :: nat

section \<open>The file index builder\<close>

type_synonym fileMap = "string \<rightharpoonup> Descriptor"

text \<open>
  The loop over \<^verbatim>\<open>manifest.Layers\<close> in the handler: the assignments
  \<^verbatim>\<open>files[cleanPath] = l\<close> that it makes, in their order.
\<close>

fun assignments :: "World \<Rightarrow> Descriptor list \<Rightarrow> (string \<times> Descriptor) list" where
  "assignments wd [] = []"
| "assignments wd (l # ls) =
     (let title = Annotation l AnnotationTitle in
      if title \<noteq> [] then (Clean wd title, l) # assignments wd ls else assignments wd ls)"

text \<open>
  The two bodies that the handler fetches and decodes (\<^verbatim>\<open>fetcher.Fetch\<close>,
  \<^verbatim>\<open>ioutil.ReadAll\<close>, \<^verbatim>\<open>json.Unmarshal\<close>): the layers of a manifest and the manifests of
  an index.  The first error of the three calls is the result.
\<close>

definition fetchManifest :: "World \<Rightarrow> fetcher \<Rightarrow> Descriptor \<Rightarrow> error + Descriptor list" where
  "fetchManifest wd f desc =
     (case Fetch wd f desc of
        Inl err \<Rightarrow> Inl err
      | Inr r \<Rightarrow>
          (case ReadAll wd r of
             Inl err \<Rightarrow> Inl err
           | Inr b \<Rightarrow>
               (case UnmarshalManifest wd b of
                  Inl err \<Rightarrow> Inl err
                | Inr layers \<Rightarrow> Inr layers)))"

definition fetchIndex :: "World \<Rightarrow> fetcher \<Rightarrow> Descriptor \<Rightarrow> error + Descriptor list" where
  "fetchIndex wd f desc =
     (case Fetch wd f desc of
        Inl err \<Rightarrow> Inl err
      | Inr r \<Rightarrow>
          (case ReadAll wd r of
             Inl err \<Rightarrow> Inl err
           | Inr b \<Rightarrow>
               (case UnmarshalIndex wd b of
                  Inl err \<Rightarrow> Inl err
                | Inr manifests \<Rightarrow> Inr manifests)))"

definition isManifest :: "Descriptor \<Rightarrow> bool" where
  "isManifest desc =
     (MediaType desc = MediaTypeDockerSchema2Manifest \<or> MediaType desc = MediaTypeImageManifest)"

definition isIndex :: "Descriptor \<Rightarrow> bool" where
  "isIndex desc =
     (MediaType desc = MediaTypeDockerSchema2ManifestList \<or> MediaType desc = MediaTypeImageIndex)"

text \<open>
  The handler of \<^verbatim>\<open>buildFileMap\<close>, a switch on the media type: the children to visit
  next, and the assignments to the map \<^verbatim>\<open>files\<close> that the closure makes while it runs.
\<close>

definition handler ::
  "World \<Rightarrow> fetcher \<Rightarrow> Descriptor \<Rightarrow> error + (Descriptor list \<times> (string \<times> Descriptor) list)" where
  "handler wd f desc =
     (if isManifest desc then
        (case fetchManifest wd f desc of
           Inl err \<Rightarrow> Inl err
         | Inr layers \<Rightarrow> Inr ([], assignments wd layers))
      else if isIndex desc then
        (case fetchIndex wd f desc of
           Inl err \<Rightarrow> Inl err
         | Inr manifests \<Rightarrow> Inr (manifests, []))
      else Inr ([], []))"

text \<open>
  \<^verbatim>\<open>images.Dispatch\<close> of containerd, called with no limiter, starts one goroutine for
  each descriptor of its list.  The goroutine calls the handler; an error that is
  \<open>ErrSkipDesc\<close> ends it quietly, any other error is reported to the group, and for
  children it calls \<^verbatim>\<open>Dispatch\<close> on them.  \<^verbatim>\<open>Dispatch\<close> waits for all its goroutines and
  returns the error that was reported first.

  \<open>goroutines\<close> is every call of the handler that this makes on a list and below it:
  the errors reported, and for each call that returned the assignments it makes to
  \<^verbatim>\<open>files\<close>.  No depth limit is enforced, so the model counts the levels that are left:
  \<open>None\<close> is a traversal deeper than that.
\<close>

fun goroutines ::
  "nat \<Rightarrow> World \<Rightarrow> fetcher \<Rightarrow> Descriptor list
     \<Rightarrow> (error list \<times> (string \<times> Descriptor) list list) option" where
  "goroutines n wd f [] = Some ([], [])"
| "goroutines n wd f (desc # descs) =
     (case (case handler wd f desc of
              Inl err \<Rightarrow> if errors_Is err ErrSkipDesc then Some ([], []) else Some ([err], [])
            | Inr (children, writes) \<Rightarrow>
                if children = [] then Some ([], [writes])
                else (case n of
                        0 \<Rightarrow> None
                      | Suc k \<Rightarrow>
                          (case goroutines k wd f children of
                             None \<Rightarrow> None
                           | Some (errs, bs) \<Rightarrow> Some (errs, writes # bs)))) of
        None \<Rightarrow> None
      | Some (errs, bs) \<Rightarrow>
          (case goroutines n wd f descs of
             None \<Rightarrow> None
           | Some (errs', bs') \<Rightarrow> Some (errs @ errs', bs @ bs')))"

text \<open>
  The goroutines share the one map \<^verbatim>\<open>files\<close> and take no lock.  An assignment to a Go
  map is not atomic: the runtime marks the map as being written when the assignment
  begins and clears the mark when it ends, and an assignment that begins while the mark
  is set stops the process with the fatal error \<^verbatim>\<open>concurrent map writes\<close>.

  \<open>runWrites\<close> runs the assignments of the goroutines under a schedule.  Each number of
  the schedule lets the goroutine of that index, its place in the list of \<open>goroutines\<close>,
  take one step: begin its next assignment, or end the one it has begun.  A goroutine that has no assignment left, or
  an index that names none, takes no step.  When the schedule is used up, the
  assignment that has begun ends and the goroutines do what is left one after another,
  in the order of the list.  The second argument is the goroutine whose assignment has
  begun, if any.
\<close>

fun applyWrites :: "(string \<times> Descriptor) list \<Rightarrow> fileMap \<Rightarrow> fileMap" where
  "applyWrites [] files = files"
| "applyWrites (kv # ws) files = applyWrites ws (files(fst kv \<mapsto> snd kv))"

fun runWrites ::
  "nat list \<Rightarrow> nat option \<Rightarrow> (string \<times> Descriptor) list list \<Rightarrow> fileMap \<Rightarrow> fileMap go" where
  "runWrites [] w bs files =
     Returns (applyWrites
                (case w of
                   None \<Rightarrow> concat bs
                 | Some g \<Rightarrow> hd (bs ! g) # concat (bs[g := tl (bs ! g)]))
                files)"
| "runWrites (g # sch) w bs files =
     (if g < length bs \<and> bs ! g \<noteq> [] then
        (case w of
           None \<Rightarrow> runWrites sch (Some g) bs files
         | Some g' \<Rightarrow>
             if g' = g then
               runWrites sch None (bs[g := tl (bs ! g)])
                 (files(fst (hd (bs ! g)) \<mapsto> snd (hd (bs ! g))))
             else Panics ''concurrent map writes'')
      else runWrites sch w bs files)"

text \<open>
  The assignments in the order in which they end under a schedule (for a run that the
  runtime does not stop): the order of \<open>runWrites\<close>.
\<close>

fun writeOrder ::
  "nat list \<Rightarrow> nat option \<Rightarrow> (string \<times> Descriptor) list list \<Rightarrow> (string \<times> Descriptor) list" where
  "writeOrder [] w bs =
     (case w of
        None \<Rightarrow> concat bs
      | Some g \<Rightarrow> hd (bs ! g) # concat (bs[g := tl (bs ! g)]))"
| "writeOrder (g # sch) w bs =
     (if g < length bs \<and> bs ! g \<noteq> [] then
        (case w of
           None \<Rightarrow> writeOrder sch (Some g) bs
         | Some g' \<Rightarrow>
             if g' = g then hd (bs ! g) # writeOrder sch None (bs[g := tl (bs ! g)]) else [])
      else writeOrder sch w bs)"

text \<open>
  \<^verbatim>\<open>Dispatch\<close> returns its error, nil or not, and leaves the map as the goroutines have
  written it; the scheduler of the world decides the order of the assignments and which
  of the errors came first.
\<close>

definition Dispatch ::
  "nat \<Rightarrow> World \<Rightarrow> fetcher \<Rightarrow> Descriptor list \<Rightarrow> fileMap
     \<Rightarrow> (error option \<times> fileMap) go option" where
  "Dispatch n wd f descs files =
     (case goroutines n wd f descs of
        None \<Rightarrow> None
      | Some (errs, bs) \<Rightarrow>
          Some (case runWrites (Schedule wd) None bs files of
                  Panics p \<Rightarrow> Panics p
                | Returns files' \<Rightarrow>
                    Returns (if errs = [] then None
                             else Some (errs ! (FirstError wd mod length errs)), files')))"

definition buildFileMap ::
  "nat \<Rightarrow> World \<Rightarrow> fetcher \<Rightarrow> Descriptor \<Rightarrow> (error + fileMap) go option" where
  "buildFileMap n wd f rootDesc =
     (let files = Map.empty in
      case Dispatch n wd f [rootDesc] files of
        None \<Rightarrow> None
      | Some (Panics p) \<Rightarrow> Some (Panics p)
      | Some (Returns (Some err, files')) \<Rightarrow> Some (Returns (Inl err))
      | Some (Returns (None, files')) \<Rightarrow> Some (Returns (Inr files')))"

text \<open>
  The layers that the traversal reaches, in the order of the lists: those of each
  manifest, and those below each index.  A descriptor that is neither, or whose body
  cannot be had, has none.
\<close>

fun layersReached :: "nat \<Rightarrow> World \<Rightarrow> fetcher \<Rightarrow> Descriptor list \<Rightarrow> Descriptor list" where
  "layersReached n wd f [] = []"
| "layersReached n wd f (desc # descs) =
     (if isManifest desc then
        (case fetchManifest wd f desc of Inl err \<Rightarrow> [] | Inr layers \<Rightarrow> layers)
      else if isIndex desc then
        (case fetchIndex wd f desc of
           Inl err \<Rightarrow> []
         | Inr manifests \<Rightarrow>
             (case n of 0 \<Rightarrow> [] | Suc k \<Rightarrow> layersReached k wd f manifests))
      else [])
     @ layersReached n wd f descs"

section \<open>The message writer\<close>

text \<open>
  What the program writes is the list of the messages written so far.  A message keeps
  the arguments that the writer formats: the text of a status or a warning is the format
  with its arguments.
\<close>

datatype status_text =
    ParsingMsg Message
  | CreatingResolver string
  | CreatingFetcher string
  | BuildingFileMap Descriptor
  | FoundDescriptor string Descriptor

datatype out_message =
    Capabilities string nat
  | Log nat string
  | Status string status_text
  | Warning string string string
  | URIStart string string int bool
  | URIDone string string string string bool bool int string
  | URIFailure string error error bool bool
  | GeneralFailure error

text \<open>The status code on the first line of each message.\<close>

fun code :: "out_message \<Rightarrow> nat" where
  "code (Capabilities v c) = 100"
| "code (Log c d) = 101"
| "code (Status u t) = 102"
| "code (Warning t e g) = 104"
| "code (URIStart u r s m) = 200"
| "code (URIDone u f r a i m s h) = 201"
| "code (URIFailure u msg reason t m) = 400"
| "code (GeneralFailure e) = 401"

type_synonym MessageWriter = "out_message list"

definition StartURI :: "string \<Rightarrow> string \<Rightarrow> int \<Rightarrow> bool \<Rightarrow> MessageWriter \<Rightarrow> MessageWriter" where
  "StartURI uri resumePoint sz usedMirror mw = mw @ [URIStart uri resumePoint sz usedMirror]"

definition FailedURI ::
  "string \<Rightarrow> error \<Rightarrow> error \<Rightarrow> bool \<Rightarrow> bool \<Rightarrow> MessageWriter \<Rightarrow> MessageWriter" where
  "FailedURI uri msg failReason transientError usedMirror mw =
     mw @ [URIFailure uri msg failReason transientError usedMirror]"

definition FinishURI ::
  "string \<Rightarrow> string \<Rightarrow> string \<Rightarrow> string \<Rightarrow> bool \<Rightarrow> bool \<Rightarrow> int \<Rightarrow> string
     \<Rightarrow> MessageWriter \<Rightarrow> MessageWriter" where
  "FinishURI uri filename resumePoint altIMSHit imsHit usedMirror sz sha mw =
     mw @ [URIDone uri filename resumePoint altIMSHit imsHit usedMirror sz sha]"

definition Warningf :: "string \<Rightarrow> string \<Rightarrow> string \<Rightarrow> MessageWriter \<Rightarrow> MessageWriter" where
  "Warningf title expected got mw = mw @ [Warning title expected got]"

definition Logf :: "nat \<Rightarrow> string \<Rightarrow> MessageWriter \<Rightarrow> MessageWriter" where
  "Logf c d mw = mw @ [Log c d]"

definition GeneralFailuref :: "error \<Rightarrow> MessageWriter \<Rightarrow> MessageWriter" where
  "GeneralFailuref err mw = mw @ [GeneralFailure err]"

definition WriteCapabilities :: "string \<Rightarrow> nat \<Rightarrow> MessageWriter \<Rightarrow> MessageWriter" where
  "WriteCapabilities version caps mw = mw @ [Capabilities version caps]"

section \<open>The method: cache, acquire engine and protocol driver\<close>

record cacheEntry =
  fetcher :: fetcher
  fileMap :: fileMap

record Method =
  writer :: MessageWriter
  msgReader :: MessageReader
  cacheByOCIRef :: "string \<rightharpoonup> cacheEntry"

definition New :: "Reader \<Rightarrow> Method" where
  "New inp = \<lparr>writer = [], msgReader = NewMessageReader inp, cacheByOCIRef = Map.empty\<rparr>"

definition Statusf :: "string \<Rightarrow> status_text \<Rightarrow> Method \<Rightarrow> Method" where
  "Statusf uri t m = m\<lparr>writer := writer m @ [Status uri t]\<rparr>"

definition ociResolver :: "World \<Rightarrow> Named \<Rightarrow> error + resolver" where
  "ociResolver wd named =
     (case NewResolver wd (refDomain named) of
        Inl err \<Rightarrow> Inl (CreateResolverFailed (refDomain named) (refString named) err)
      | Inr resolver \<Rightarrow> Inr resolver)"

definition ociFetcher :: "World \<Rightarrow> Named \<Rightarrow> resolver \<Rightarrow> error + (fetcher \<times> Descriptor)" where
  "ociFetcher wd named resolver =
     (case Resolve wd resolver (refString named) of
        Inl err \<Rightarrow> Inl (ResolveFailed (refString named) err)
      | Inr (ociName, rootDesc) \<Rightarrow>
          (case Fetcher wd resolver ociName of
             Inl err \<Rightarrow> Inl err
           | Inr fetcher' \<Rightarrow> Inr (fetcher', rootDesc)))"

definition parseURIFields :: "World \<Rightarrow> Message \<Rightarrow> error + (Named \<times> string)" where
  "parseURIFields wd msg =
     (case (let repoURI = FieldOf msg FieldTargetRepoURI in
            if repoURI = [] then
              (let uri = FieldOf msg FieldURI in
               if uri = [] then Inl (MissingField FieldTargetRepoURI)
               else (case parseURI uri of
                       (repo, _, Some err) \<Rightarrow> Inl err
                     | (repo, _, None) \<Rightarrow> Inr repo))
            else Inr repoURI) of
        Inl err \<Rightarrow> Inl err
      | Inr repoURI \<Rightarrow>
          if \<not> HasPrefix repoURI ''oci://'' then Inl (LacksPrefix FieldTargetRepoURI repoURI)
          else
            let refTmp = TrimPrefix repoURI ''oci://'';
                refTmp = TrimSuffix refTmp ''/''
            in case ParseDockerRef wd refTmp of
                 Inl err \<Rightarrow> Inl (ParseRefFailed refTmp FieldTargetRepoURI repoURI err)
               | Inr ociRef \<Rightarrow>
                   let title = TrimPrefix (FieldOf msg FieldURI) repoURI;
                       title = TrimPrefix title ''./''
                   in Inr (ociRef, title))"

definition doCacheStuff ::
  "nat \<Rightarrow> World \<Rightarrow> string \<Rightarrow> Named \<Rightarrow> Method \<Rightarrow> ((error + cacheEntry) go \<times> Method) option" where
  "doCacheStuff n wd uri ociRef m =
     (case cacheByOCIRef m (refString ociRef) of
        Some x \<Rightarrow> Some (Returns (Inr x), m)
      | None \<Rightarrow>
          let m1 = Statusf uri (CreatingResolver (refString ociRef)) m in
          case ociResolver wd ociRef of
            Inl err \<Rightarrow> Some (Returns (Inl err), m1)
          | Inr resolver \<Rightarrow>
              let m2 = Statusf uri (CreatingFetcher (refString ociRef)) m1 in
              case ociFetcher wd ociRef resolver of
                Inl err \<Rightarrow> Some (Returns (Inl err), m2)
              | Inr (fetcher', rootDesc) \<Rightarrow>
                  let m3 = Statusf uri (BuildingFileMap rootDesc) m2 in
                  case buildFileMap n wd fetcher' rootDesc of
                    None \<Rightarrow> None
                  | Some (Panics p) \<Rightarrow> Some (Panics p, m3)
                  | Some (Returns (Inl err)) \<Rightarrow> Some (Returns (Inl err), m3)
                  | Some (Returns (Inr fileMap')) \<Rightarrow>
                      let c = \<lparr>fetcher = fetcher', fileMap = fileMap'\<rparr>
                      in Some (Returns (Inr c),
                               m3\<lparr>cacheByOCIRef := (cacheByOCIRef m3)(refString ociRef \<mapsto> c)\<rparr>))"

text \<open>
  The condition of the digest check,
  \<^verbatim>\<open>desc.Digest.Algorithm() == dig.Algorithm() && desc.Digest.Encoded() != dig.Encoded()\<close>,
  evaluated from left to right.
\<close>

definition digestDiffers :: "string \<Rightarrow> string \<Rightarrow> bool go" where
  "digestDiffers declared dig =
     (case Algorithm declared of
        Panics p \<Rightarrow> Panics p
      | Returns a \<Rightarrow>
          (case Algorithm dig of
             Panics p \<Rightarrow> Panics p
           | Returns b \<Rightarrow>
               if a = b then
                 (case Encoded declared of
                    Panics p \<Rightarrow> Panics p
                  | Returns x \<Rightarrow>
                      (case Encoded dig of
                         Panics p \<Rightarrow> Panics p
                       | Returns y \<Rightarrow> Returns (x \<noteq> y)))
               else Returns False))"

text \<open>
  \<^verbatim>\<open>acquire\<close> returns the pair \<^verbatim>\<open>(started, err)\<close>.  \<^verbatim>\<open>digester.Digest()\<close> is the string
  \<^verbatim>\<open>sha256:\<close> followed by the hexadecimal hash of the bytes copied.  The deferred calls of
  \<^verbatim>\<open>Close\<close> change nothing of what is returned or written as a message, and the content
  of the file is not part of the state.
\<close>

definition acquire ::
  "nat \<Rightarrow> World \<Rightarrow> Message \<Rightarrow> Method \<Rightarrow> ((bool \<times> error option) go \<times> Method) option" where
  "acquire n wd msg m0 =
     (let started = False;
          uri = FieldOf msg FieldURI;
          filename = FieldOf msg FieldFilename;
          m1 = Statusf uri (ParsingMsg msg) m0
      in case parseURIFields wd msg of
           Inl err \<Rightarrow> Some (Returns (started, Some err), m1)
         | Inr (ociRef, title) \<Rightarrow>
      (case doCacheStuff n wd uri ociRef m1 of
           None \<Rightarrow> None
         | Some (Panics p, m2) \<Rightarrow> Some (Panics p, m2)
         | Some (Returns (Inl err), m2) \<Rightarrow> Some (Returns (started, Some err), m2)
         | Some (Returns (Inr c), m2) \<Rightarrow>
      (case fileMap c title of
           None \<Rightarrow> Some (Returns (started, Some (FileNotFound (refString ociRef) title)), m2)
         | Some desc \<Rightarrow>
      let m3 = Statusf uri (FoundDescriptor title desc) m2;
          m4 = (if MediaType desc = MediaTypeApplicationOctetStream
                   \<or> MediaType desc = MediaTypeApplicationXBinary then m3
                else m3\<lparr>writer := Warningf title MediaTypeApplicationXBinary (MediaType desc)
                                   (writer m3)\<rparr>);
          resumePoint = [];
          usedMirror = False;
          m5 = m4\<lparr>writer := StartURI uri resumePoint (Size desc) usedMirror (writer m4)\<rparr>;
          started = True
      in case Fetch wd (fetcher c) desc of
           Inl err \<Rightarrow> Some (Returns (started, Some err), m5)
         | Inr r \<Rightarrow>
      (case Create wd filename of
           Inl err \<Rightarrow> Some (Returns (started, Some err), m5)
         | Inr w \<Rightarrow>
      (case Copy wd w r of
           Inl err \<Rightarrow> Some (Returns (started, Some err), m5)
         | Inr bytes \<Rightarrow>
      (case CloseFile wd w of
           Some err \<Rightarrow> Some (Returns (started, Some err), m5)
         | None \<Rightarrow>
      (case CloseReader wd r of
           Some err \<Rightarrow> Some (Returns (started, Some err), m5)
         | None \<Rightarrow>
      let dig = ''sha256:'' @ SHA256 wd bytes in
      case digestDiffers (Digest desc) dig of
           Panics p \<Rightarrow> Some (Panics p, m5)
         | Returns True \<Rightarrow>
             Some (Returns (started, Some (DigestMismatch title (Digest desc) dig)), m5)
         | Returns False \<Rightarrow>
             let altIMSHit = []; imsHit = False in
             Some (Returns (started, None),
                   m5\<lparr>writer := FinishURI uri filename resumePoint altIMSHit imsHit usedMirror
                                    (Size desc) (SHA256 wd bytes) (writer m5)\<rparr>))))))))"

definition handleURIAcquire ::
  "nat \<Rightarrow> World \<Rightarrow> Message \<Rightarrow> Method \<Rightarrow> (unit go \<times> Method) option" where
  "handleURIAcquire n wd msg m =
     (case acquire n wd msg m of
        None \<Rightarrow> None
      | Some (Panics p, m') \<Rightarrow> Some (Panics p, m')
      | Some (Returns (started, None), m') \<Rightarrow> Some (Returns (), m')
      | Some (Returns (started, Some err), m') \<Rightarrow>
          let transientError = False;
              usedMirror = False;
              uri = FieldOf msg FieldURI;
              m1 = (if \<not> started then m'\<lparr>writer := StartURI uri [] 0 usedMirror (writer m')\<rparr>
                    else m')
          in Some (Returns (),
                   m1\<lparr>writer := FailedURI uri err err transientError usedMirror (writer m1)\<rparr>))"

text \<open>
  The loop of \<^verbatim>\<open>Run\<close>.  It ends when \<^verbatim>\<open>Run\<close> returns or the process panics; \<open>None\<close> is a
  loop that has not ended within the count.  \<^verbatim>\<open>msg.StatusCode\<close> of a nil message is a
  panic.
\<close>

fun loop :: "nat \<Rightarrow> World \<Rightarrow> Method \<Rightarrow> (unit go \<times> Method) option" where
  "loop 0 wd m = None"
| "loop (Suc n) wd m =
     (case ReadMessage n (msgReader m) [] of
        None \<Rightarrow> None
      | Some ((msg, err), rd) \<Rightarrow>
          let m1 = m\<lparr>msgReader := rd\<rparr> in
          if err \<noteq> None \<and> (errors_Is (the err) EOF \<or> errors_Is (the err) ErrClosedPipe)
          then Some (Returns (), m1)
          else if err \<noteq> None
                  \<and> \<not> (errors_Is (the err) ErrNoProgress \<or> errors_Is (the err) ErrShortBuffer)
          then Some (Returns (), m1\<lparr>writer := GeneralFailuref (the err) (writer m1)\<rparr>)
          else
            (case msg of
               None \<Rightarrow> Some (Panics ''nil pointer dereference'', m1)
             | Some msg \<Rightarrow>
                 if StatusCode msg = CodeURIAcquire then
                   (case handleURIAcquire n wd msg m1 of
                      None \<Rightarrow> None
                    | Some (Panics p, m2) \<Rightarrow> Some (Panics p, m2)
                    | Some (Returns u, m2) \<Rightarrow> loop n wd m2)
                 else loop n wd (m1\<lparr>writer := Logf (StatusCode msg) (Description msg) (writer m1)\<rparr>)))"

text \<open>
  \<^verbatim>\<open>Run\<close>: the version text is \<^verbatim>\<open>Major.Minor\<close> of the version package, a parameter here;
  no capability flag is set.
\<close>

definition Run :: "nat \<Rightarrow> World \<Rightarrow> string \<Rightarrow> Method \<Rightarrow> (unit go \<times> Method) option" where
  "Run n wd version m = loop n wd (m\<lparr>writer := WriteCapabilities version 0 (writer m)\<rparr>)"

section \<open>A sample registry\<close>

text \<open>
  An index with two manifests, each of one layer titled \<open>Packages\<close>.  Every call
  succeeds, every blob has the bytes \<open>data\<close>, and the parameter is the hexadecimal hash
  that the hasher gives for them.  Under the empty schedule the goroutines run one after
  another.
\<close>

definition sampleLayer :: "string \<Rightarrow> Descriptor" where
  "sampleLayer dg =
     \<lparr>MediaType = MediaTypeApplicationOctetStream, Digest = dg, Size = 4,
      Annotations = [AnnotationTitle \<mapsto> ''Packages'']\<rparr>"

definition sampleManifest :: "string \<Rightarrow> Descriptor" where
  "sampleManifest dg =
     \<lparr>MediaType = MediaTypeImageManifest, Digest = dg, Size = 10, Annotations = Map.empty\<rparr>"

definition sampleIndex :: Descriptor where
  "sampleIndex =
     \<lparr>MediaType = MediaTypeImageIndex, Digest = ''sha256:00'', Size = 20,
      Annotations = Map.empty\<rparr>"

definition sampleWorld :: "string \<Rightarrow> World" where
  "sampleWorld hash =
     \<lparr>ParseDockerRef =
        (\<lambda>s. if s = [] then Inl (ExternalError ''invalid reference format'')
             else Inr \<lparr>refString = s, refDomain = takeWhile (\<lambda>c. c \<noteq> CHR ''/'') s\<rparr>),
      NewResolver = (\<lambda>domain. Inr 0),
      Resolve = (\<lambda>resolver ref. Inr (ref, sampleIndex)),
      Fetcher = (\<lambda>resolver name. Inr 0),
      Fetch =
        (\<lambda>f desc. if Digest desc = ''sha256:00'' then Inr 1
                   else if Digest desc = ''sha256:0a'' then Inr 2
                   else if Digest desc = ''sha256:0b'' then Inr 3
                   else Inr 4),
      ReadAll =
        (\<lambda>r. if r = 1 then Inr ''index'' else if r = 2 then Inr ''manifest a''
              else if r = 3 then Inr ''manifest b'' else Inr ''data''),
      UnmarshalManifest =
        (\<lambda>b. if b = ''manifest a'' then Inr [sampleLayer ''sha256:1a'']
              else if b = ''manifest b'' then Inr [sampleLayer ''sha256:1b'']
              else Inl (ExternalError ''invalid manifest'')),
      UnmarshalIndex =
        (\<lambda>b. if b = ''index'' then Inr [sampleManifest ''sha256:0a'', sampleManifest ''sha256:0b'']
              else Inl (ExternalError ''invalid index'')),
      Create = (\<lambda>filename. Inr 5),
      Copy = (\<lambda>w r. Inr ''data''),
      CloseFile = (\<lambda>w. None),
      CloseReader = (\<lambda>r. None),
      SHA256 = (\<lambda>bytes. hash),
      Clean = (\<lambda>p. p),
      Schedule = [],
      FirstError = 0\<rparr>"

text \<open>A request for \<open>Packages\<close> of the sample registry.\<close>

definition sampleRequest :: Message where
  "sampleRequest =
     \<lparr>StatusCode = 600, Description = ''URI Acquire'',
      Fields = [FieldURI \<mapsto> ''oci://reg.example/repo:latest/Packages'',
                FieldFilename \<mapsto> ''/tmp/Packages'']\<rparr>"

section \<open>Facts about the string functions\<close>

lemma HasPrefix_append [simp]: "HasPrefix (p @ s) p"
  by (simp add: HasPrefix_def)

lemma TrimPrefix_append [simp]: "TrimPrefix (p @ s) p = s"
  by (simp add: TrimPrefix_def)

lemma TrimPrefix_same_iff: "p \<noteq> [] \<Longrightarrow> TrimPrefix s p = s \<longleftrightarrow> \<not> HasPrefix s p"
proof -
  assume ne: "p \<noteq> []"
  have "drop (length p) s \<noteq> s" if "HasPrefix s p"
  proof
    assume "drop (length p) s = s"
    then have "length s - length p = length s"
      by (metis length_drop)
    moreover have "0 < length p" "length p \<le> length s"
      using ne that by (simp_all add: HasPrefix_def)
    ultimately show False by arith
  qed
  then show ?thesis
    by (auto simp: TrimPrefix_def)
qed

lemma HasPrefix_decompose: "HasPrefix s p \<Longrightarrow> s = p @ drop (length p) s"
  by (metis HasPrefix_def append_take_drop_id)

lemma SplitN2_absent: "c \<notin> set s \<Longrightarrow> SplitN2 s c = [s]"
  by (simp add: SplitN2_def)

lemma SplitN2_first: "c \<notin> set a \<Longrightarrow> SplitN2 (a @ c # b) c = [a, b]"
proof -
  assume a: "c \<notin> set a"
  then have "takeWhile (\<lambda>x. x \<noteq> c) (a @ c # b) = a"
    by (induction a) auto
  moreover have "dropWhile (\<lambda>x. x \<noteq> c) (a @ c # b) = c # b"
    using a by (induction a) auto
  ultimately show ?thesis
    by (simp add: SplitN2_def)
qed

lemma SplitN2_present:
  "c \<in> set s \<Longrightarrow> \<exists>a b. SplitN2 s c = [a, b] \<and> s = a @ c # b \<and> c \<notin> set a"
proof -
  assume "c \<in> set s"
  then obtain a b where "s = a @ c # b" "c \<notin> set a"
    by (meson split_list_first)
  then show ?thesis
    using SplitN2_first by blast
qed

lemma length_SplitN2: "length (SplitN2 s c) < 2 \<longleftrightarrow> c \<notin> set s"
  by (simp add: SplitN2_def)

section \<open>The resolver: \<^verbatim>\<open>parseURI\<close>\<close>

lemma SplitN2_hd_free: "c \<notin> set (SplitN2 s c ! 0)"
  by (auto simp: SplitN2_def dest: set_takeWhileD)

lemma parseURI_with_path:
  assumes "CHR '':'' \<notin> set host" and "CHR ''/'' \<notin> set tag"
  shows "parseURI (''oci://'' @ host @ '':'' @ tag @ ''/'' @ p) =
           (''oci://'' @ host @ '':'' @ tag @ ''/'', p, None)"
proof -
  have ne: "\<And>r. r \<noteq> ''oci://'' @ r"
    by (metis append_self_conv2 list.distinct(1))
  have s1: "SplitN2 (host @ '':'' @ tag @ ''/'' @ p) CHR '':'' = [host, tag @ ''/'' @ p]"
    using SplitN2_first [OF assms(1)] by simp
  have s2: "SplitN2 (tag @ ''/'' @ p) CHR ''/'' = [tag, p]"
    using SplitN2_first [OF assms(2)] by simp
  have "parseURI (''oci://'' @ (host @ '':'' @ tag @ ''/'' @ p)) =
           (''oci://'' @ host @ '':'' @ tag @ ''/'', p, None)"
    unfolding parseURI_def TrimPrefix_append Let_def using ne s1 s2 by simp
  then show ?thesis by simp
qed

lemma parseURI_without_path:
  assumes "CHR '':'' \<notin> set host" and "CHR ''/'' \<notin> set tag"
  shows "parseURI (''oci://'' @ host @ '':'' @ tag) =
           (''oci://'' @ host @ '':'' @ tag @ ''/'', [], None)"
proof -
  have ne: "\<And>r. r \<noteq> ''oci://'' @ r"
    by (metis append_self_conv2 list.distinct(1))
  have s3: "SplitN2 (host @ '':'' @ tag) CHR '':'' = [host, tag]"
    using SplitN2_first [OF assms(1)] by simp
  have s4: "SplitN2 tag CHR ''/'' = [tag]"
    using assms(2) by (rule SplitN2_absent)
  have "parseURI (''oci://'' @ (host @ '':'' @ tag)) =
           (''oci://'' @ host @ '':'' @ tag @ ''/'', [], None)"
    unfolding parseURI_def TrimPrefix_append Let_def using ne s3 s4 by simp
  then show ?thesis by simp
qed

lemma parseURI_fails_iff:
  "snd (snd (parseURI u)) \<noteq> None \<longleftrightarrow>
     \<not> HasPrefix u ''oci://'' \<or> CHR '':'' \<notin> set (drop 6 u)"
proof (cases "HasPrefix u ''oci://''")
  case False
  then have "TrimPrefix u ''oci://'' = u"
    by (simp add: TrimPrefix_def)
  then show ?thesis
    using False by (simp add: parseURI_def)
next
  case True
  then have t: "TrimPrefix u ''oci://'' = drop 6 u" "TrimPrefix u ''oci://'' \<noteq> u"
    using TrimPrefix_same_iff [of "''oci://''" u] by (simp_all add: TrimPrefix_def eval_nat_numeral)
  show ?thesis
    using True t by (simp add: parseURI_def Let_def length_SplitN2)
qed

lemma parseURI_failure_empty:
  "snd (snd (parseURI u)) \<noteq> None \<Longrightarrow> fst (parseURI u) = [] \<and> fst (snd (parseURI u)) = []"
  by (simp add: parseURI_def Let_def split: if_splits)

lemma parseURI_success_form:
  assumes "parseURI u = (r, p, None)"
  shows "\<exists>host tag. CHR '':'' \<notin> set host \<and> CHR ''/'' \<notin> set tag
           \<and> r = ''oci://'' @ host @ '':'' @ tag @ ''/''"
proof -
  let ?t = "TrimPrefix u ''oci://''"
  let ?split = "SplitN2 ?t CHR '':''"
  let ?tf = "SplitN2 (?split ! 1) CHR ''/''"
  from assms have "r = ''oci://'' @ ?split ! 0 @ '':'' @ ?tf ! 0 @ ''/''"
    by (simp add: parseURI_def Let_def split: if_splits)
  moreover have "CHR '':'' \<notin> set (?split ! 0)" "CHR ''/'' \<notin> set (?tf ! 0)"
    by (rule SplitN2_hd_free)+
  ultimately show ?thesis by blast
qed

text \<open>
  Claim C3.  For every input \<open>oci://host:tag/path\<close>, where the host has no colon and the
  tag has no slash, \<open>parseURI\<close> succeeds with the repository \<open>oci://host:tag/\<close> and with
  the path that follows the first slash after the tag; for \<open>oci://host:tag\<close>, with neither
  slash nor path, it succeeds with the same repository and the empty path.
\<close>

theorem parseURI_host_tag_path:
  assumes "CHR '':'' \<notin> set host" and "CHR ''/'' \<notin> set tag"
  shows "parseURI (''oci://'' @ host @ '':'' @ tag @ ''/'' @ p) =
           (''oci://'' @ host @ '':'' @ tag @ ''/'', p, None)
       \<and> parseURI (''oci://'' @ host @ '':'' @ tag) =
           (''oci://'' @ host @ '':'' @ tag @ ''/'', [], None)"
  using parseURI_with_path [OF assms] parseURI_without_path [OF assms] by simp

theorem parseURI_host_tag_path_witness:
  "parseURI ''oci://reg.example/ns:latest/pool/a/pkg.deb'' =
     (''oci://reg.example/ns:latest/'', ''pool/a/pkg.deb'', None)
   \<and> parseURI ''oci://reg.example/ns:latest'' = (''oci://reg.example/ns:latest/'', [], None)"
  using parseURI_host_tag_path [of "''reg.example/ns''" "''latest''" "''pool/a/pkg.deb''"]
  by simp

text \<open>
  Claim C4.  Round trip: when \<open>parseURI\<close> succeeds with the canonical reference
  \<open>canonical\<close>, then for every relative path (any string, so any number of segments
  separated by slashes) \<open>parseURI\<close> of the canonical reference followed by the path
  succeeds with the same canonical reference and with exactly that path.
\<close>

theorem parseURI_round_trip:
  assumes "parseURI u = (canonical, p, None)"
  shows "parseURI (canonical @ relativePath) = (canonical, relativePath, None)"
proof -
  from parseURI_success_form [OF assms] obtain host tag where
    h: "CHR '':'' \<notin> set host" "CHR ''/'' \<notin> set tag"
       "canonical = ''oci://'' @ host @ '':'' @ tag @ ''/''"
    by blast
  show ?thesis
    using parseURI_with_path [OF h(1,2), of relativePath] h(3) by simp
qed

theorem parseURI_round_trip_witness:
  "parseURI ''oci://ghcr.io/a/b:latest/x'' = (''oci://ghcr.io/a/b:latest/'', ''x'', None)
   \<and> parseURI (''oci://ghcr.io/a/b:latest/'' @ ''dists/stable/Release'')
        = (''oci://ghcr.io/a/b:latest/'', ''dists/stable/Release'', None)"
proof -
  have a: "parseURI ''oci://ghcr.io/a/b:latest/x'' = (''oci://ghcr.io/a/b:latest/'', ''x'', None)"
    by (simp add: parseURI_def TrimPrefix_def HasPrefix_def SplitN2_def Let_def)
  show ?thesis
    using a parseURI_round_trip [OF a, of "''dists/stable/Release''"] by simp
qed

text \<open>
  Claim C5.  \<open>parseURI\<close> fails exactly when the input lacks the prefix \<open>oci://\<close> or what
  follows the prefix has no colon; whenever it fails, the repository and the path it
  returns are empty; in particular an input with a host and a path but no tag,
  \<open>oci://host/path\<close> without any colon, fails.
\<close>

theorem parseURI_fails_exactly:
  "(snd (snd (parseURI u)) \<noteq> None \<longleftrightarrow>
      \<not> HasPrefix u ''oci://'' \<or> CHR '':'' \<notin> set (drop 6 u))
   \<and> (snd (snd (parseURI u)) \<noteq> None \<longrightarrow>
        fst (parseURI u) = [] \<and> fst (snd (parseURI u)) = [])
   \<and> (CHR '':'' \<notin> set host \<and> CHR '':'' \<notin> set p \<longrightarrow>
        snd (snd (parseURI (''oci://'' @ host @ ''/'' @ p))) \<noteq> None)"
proof -
  have "snd (snd (parseURI (''oci://'' @ host @ ''/'' @ p))) \<noteq> None"
    if "CHR '':'' \<notin> set host" "CHR '':'' \<notin> set p"
    using that parseURI_fails_iff [of "''oci://'' @ host @ ''/'' @ p"] by simp
  then show ?thesis
    using parseURI_fails_iff [of u] parseURI_failure_empty [of u] by blast
qed

theorem parseURI_fails_exactly_witness:
  "HasPrefix ''oci://reg.example/pkg.deb'' ''oci://''
   \<and> CHR '':'' \<notin> set (drop 6 ''oci://reg.example/pkg.deb'')
   \<and> snd (snd (parseURI ''oci://reg.example/pkg.deb'')) \<noteq> None
   \<and> fst (parseURI ''oci://reg.example/pkg.deb'') = []
   \<and> fst (snd (parseURI ''oci://reg.example/pkg.deb'')) = []
   \<and> snd (snd (parseURI (''oci://'' @ ''reg.example'' @ ''/'' @ ''pkg.deb''))) \<noteq> None"
  using parseURI_fails_exactly [of "''oci://reg.example/pkg.deb''" "''reg.example''" "''pkg.deb''"]
  by (simp add: HasPrefix_def)

section \<open>The resolver: \<^verbatim>\<open>parseURIFields\<close>\<close>

text \<open>
  Claim C10.  When the field \<open>Target-Repo-URI\<close> is present, begins with \<open>oci://\<close> and,
  without that prefix and a trailing slash, parses as a reference, \<open>parseURIFields\<close>
  succeeds even if the repository URI is no prefix of the field \<open>URI\<close>; the title is then
  the whole value of \<open>URI\<close> but for one leading \<open>./\<close>: no error, and nothing made
  relative to the repository.
\<close>

theorem parseURIFields_foreign_repo:
  assumes "Fields msg FieldTargetRepoURI = Some repoURI"
      and "HasPrefix repoURI ''oci://''"
      and "ParseDockerRef wd (TrimSuffix (TrimPrefix repoURI ''oci://'') ''/'') = Inr ociRef"
      and "\<not> HasPrefix (FieldOf msg FieldURI) repoURI"
  shows "parseURIFields wd msg = Inr (ociRef, TrimPrefix (FieldOf msg FieldURI) ''./'')"
proof -
  have ne: "repoURI \<noteq> []"
    using assms(2) by (auto simp: HasPrefix_def)
  have f: "FieldOf msg FieldTargetRepoURI = repoURI"
    using assms(1) by (simp add: FieldOf_def)
  have t: "TrimPrefix (FieldOf msg FieldURI) repoURI = FieldOf msg FieldURI"
    using assms(4) by (simp add: TrimPrefix_def)
  show ?thesis
    using ne assms(2,3) by (simp add: parseURIFields_def f t Let_def)
qed

theorem parseURIFields_foreign_repo_witness:
  "parseURIFields (sampleWorld [])
     \<lparr>StatusCode = 600, Description = ''URI Acquire'',
      Fields = [FieldURI \<mapsto> ''./pool/pkg.deb'',
                FieldTargetRepoURI \<mapsto> ''oci://reg.example/repo:latest/'']\<rparr> =
   Inr (\<lparr>refString = ''reg.example/repo:latest'', refDomain = ''reg.example''\<rparr>, ''pool/pkg.deb'')"
proof -
  let ?msg = "\<lparr>StatusCode = 600, Description = ''URI Acquire'',
      Fields = [FieldURI \<mapsto> ''./pool/pkg.deb'',
                FieldTargetRepoURI \<mapsto> ''oci://reg.example/repo:latest/'']\<rparr>"
  have a: "Fields ?msg FieldTargetRepoURI = Some ''oci://reg.example/repo:latest/''"
    by (simp add: FieldTargetRepoURI_def)
  have b: "HasPrefix ''oci://reg.example/repo:latest/'' ''oci://''"
    by (simp add: HasPrefix_def)
  have c: "ParseDockerRef (sampleWorld [])
             (TrimSuffix (TrimPrefix ''oci://reg.example/repo:latest/'' ''oci://'') ''/'') =
           Inr \<lparr>refString = ''reg.example/repo:latest'', refDomain = ''reg.example''\<rparr>"
    by (simp add: sampleWorld_def TrimPrefix_def TrimSuffix_def HasPrefix_def HasSuffix_def)
  have u: "FieldOf ?msg FieldURI = ''./pool/pkg.deb''"
    by (simp add: FieldOf_def FieldURI_def FieldTargetRepoURI_def)
  have d: "\<not> HasPrefix (FieldOf ?msg FieldURI) ''oci://reg.example/repo:latest/''"
    by (simp add: u HasPrefix_def)
  show ?thesis
    using parseURIFields_foreign_repo [OF a b c d]
    by (simp add: u TrimPrefix_def HasPrefix_def)
qed

section \<open>The message framer: \<^verbatim>\<open>ReadLine\<close>\<close>

lemmas trim_eval = TrimSpace_def TrimLeft.simps TrimRight.simps leadingSpace_def trailingSpace_def
  asciiSpace_def spaceRunes_def HasPrefix_def HasSuffix_def

lemma readLineFrom_line:
  "CHR 0x0A \<notin> set l \<Longrightarrow>
   readLineFrom (map Byte l @ Byte (CHR 0x0A) # rest) fin = (l @ [CHR 0x0A], None, rest)"
  by (induction l) auto

text \<open>
  Claim C8.  While a message is in progress, let the next line of the input (bytes up to
  a line feed) be neither blank nor of the form \<open>key:value\<close> after trimming, that is
  without a colon, and let it parse as a header.  Then \<open>ReadLine\<close> returns the message
  that was in progress together with an error, the one whose text is \<open>new message
  started without old message ending\<close>, and the new header is the message in progress
  for the reads that follow.
\<close>

theorem ReadLine_new_header:
  assumes "message r = Some cur"
      and "pending (reader r) = map Byte l @ Byte (CHR 0x0A) # rest"
      and "CHR 0x0A \<notin> set l"
      and "TrimSpace (l @ [CHR 0x0A]) \<noteq> []"
      and "CHR '':'' \<notin> set (TrimSpace (l @ [CHR 0x0A]))"
      and "ParseHeader (TrimSpace (l @ [CHR 0x0A])) = Inr hdr"
  shows "ReadLine r =
           ((Some cur, Some (ErrorString ''new message started without old message ending'')),
            r\<lparr>reader := (reader r)\<lparr>pending := rest\<rparr>, message := Some hdr\<rparr>)"
proof -
  have rs: "ReadString (reader r) = ((l @ [CHR 0x0A], None), (reader r)\<lparr>pending := rest\<rparr>)"
    using assms(2,3) by (simp add: ReadString_def readLineFrom_line)
  have sp: "length (SplitN2 (TrimSpace (l @ [CHR 0x0A])) CHR '':'') \<noteq> 2"
    using assms(5) by (simp add: SplitN2_def)
  show ?thesis
    using assms(1,4,6) sp by (simp add: ReadLine_def rs Let_def commitMessage_def)
qed

theorem ReadLine_new_header_witness:
  "ReadLine
     \<lparr>reader = \<lparr>pending = map Byte ''601 Configuration'' @ Byte (CHR 0x0A) # map Byte ''x: y'',
                 final = EOF\<rparr>,
      message = Some \<lparr>StatusCode = 600, Description = ''URI Acquire'', Fields = Map.empty\<rparr>\<rparr> =
   ((Some \<lparr>StatusCode = 600, Description = ''URI Acquire'', Fields = Map.empty\<rparr>,
     Some (ErrorString ''new message started without old message ending'')),
    \<lparr>reader = \<lparr>pending = map Byte ''x: y'', final = EOF\<rparr>,
     message = Some \<lparr>StatusCode = 601, Description = ''Configuration'', Fields = Map.empty\<rparr>\<rparr>)"
proof -
  let ?r = "\<lparr>reader = \<lparr>pending = map Byte ''601 Configuration'' @ Byte (CHR 0x0A) # map Byte ''x: y'',
                 final = EOF\<rparr>,
      message = Some \<lparr>StatusCode = 600, Description = ''URI Acquire'', Fields = Map.empty\<rparr>\<rparr>"
  have t: "TrimSpace (''601 Configuration'' @ [CHR 0x0A]) = ''601 Configuration''"
    by (simp add: trim_eval)
  have h: "ParseHeader ''601 Configuration'' =
             Inr \<lparr>StatusCode = 601, Description = ''Configuration'', Fields = Map.empty\<rparr>"
    by (simp add: ParseHeader_def trim_eval SplitN2_def Let_def ParseUint_def isDigit_def)
  have a: "message ?r = Some \<lparr>StatusCode = 600, Description = ''URI Acquire'', Fields = Map.empty\<rparr>"
    by simp
  have b: "pending (reader ?r) = map Byte ''601 Configuration'' @ Byte (CHR 0x0A) # map Byte ''x: y''"
    by simp
  have c: "CHR 0x0A \<notin> set ''601 Configuration''" by simp
  have d: "TrimSpace (''601 Configuration'' @ [CHR 0x0A]) \<noteq> []"
    unfolding t by simp
  have e: "CHR '':'' \<notin> set (TrimSpace (''601 Configuration'' @ [CHR 0x0A]))"
    unfolding t by simp
  have f: "ParseHeader (TrimSpace (''601 Configuration'' @ [CHR 0x0A])) =
             Inr \<lparr>StatusCode = 601, Description = ''Configuration'', Fields = Map.empty\<rparr>"
    unfolding t by (rule h)
  show ?thesis
    using ReadLine_new_header [OF a b c d e f] by simp
qed

section \<open>The file index builder\<close>

lemma assignments_append: "assignments wd (xs @ ys) = assignments wd xs @ assignments wd ys"
  by (induction xs) (simp_all add: Let_def)

lemma set_assignments:
  "set (assignments wd ls) = {(Clean wd (titleOf l), l) | l. l \<in> set ls \<and> titleOf l \<noteq> []}"
  by (induction ls) (auto simp: Let_def)

lemma goroutines_layers:
  "goroutines n wd f descs = Some (errs, bs) \<Longrightarrow>
     concat bs = assignments wd (layersReached n wd f descs)"
proof (induction n wd f descs arbitrary: errs bs rule: goroutines.induct)
  case (1 n wd f)
  then show ?case by simp
next
  case (2 n wd f desc descs)
  from "2.prems" obtain e1 b1 e2 b2 where
    rest: "goroutines n wd f descs = Some (e2, b2)" and bs: "bs = b1 @ b2" and
    this_one: "(case handler wd f desc of
              Inl err \<Rightarrow> if errors_Is err ErrSkipDesc then Some ([], []) else Some ([err], [])
            | Inr (children, writes) \<Rightarrow>
                if children = [] then Some ([], [writes])
                else (case n of
                        0 \<Rightarrow> None
                      | Suc k \<Rightarrow>
                          (case goroutines k wd f children of
                             None \<Rightarrow> None
                           | Some (errs, bs) \<Rightarrow> Some (errs, writes # bs)))) = Some (e1, b1)"
    by (auto split: option.splits prod.splits)
  have tail: "concat b2 = assignments wd (layersReached n wd f descs)"
    using "2.IH"(2) [OF this_one refl rest] .
  have head: "concat b1 = assignments wd
     (if isManifest desc then
        (case fetchManifest wd f desc of Inl err \<Rightarrow> [] | Inr layers \<Rightarrow> layers)
      else if isIndex desc then
        (case fetchIndex wd f desc of
           Inl err \<Rightarrow> []
         | Inr manifests \<Rightarrow>
             (case n of 0 \<Rightarrow> [] | Suc k \<Rightarrow> layersReached k wd f manifests))
      else [])"
  proof (cases "handler wd f desc")
    case (Inl err)
    then have "b1 = []" using this_one by (auto split: if_splits)
    moreover from Inl have "(isManifest desc \<and> (\<exists>e. fetchManifest wd f desc = Inl e))
        \<or> (\<not> isManifest desc \<and> isIndex desc \<and> (\<exists>e. fetchIndex wd f desc = Inl e))"
      by (auto simp: handler_def split: if_splits sum.splits)
    ultimately show ?thesis by auto
  next
    case (Inr p)
    obtain children writes where p: "p = (children, writes)" by (cases p)
    show ?thesis
    proof (cases "children = []")
      case True
      with Inr p this_one have b1: "b1 = [writes]" by simp
      from Inr p True have "(isManifest desc \<and> (\<exists>ls. fetchManifest wd f desc = Inr ls \<and> writes = assignments wd ls))
         \<or> (\<not> isManifest desc \<and> isIndex desc \<and> fetchIndex wd f desc = Inr [] \<and> writes = [])
         \<or> (\<not> isManifest desc \<and> \<not> isIndex desc \<and> writes = [])"
        by (auto simp: handler_def split: if_splits sum.splits)
      then show ?thesis using b1 by (auto split: nat.splits)
    next
      case False
      with Inr p have ix: "\<not> isManifest desc" "isIndex desc" "fetchIndex wd f desc = Inr children"
        "writes = []"
        by (auto simp: handler_def split: if_splits sum.splits)
      from False Inr p this_one obtain k e3 b3 where
        n: "n = Suc k" and g: "goroutines k wd f children = Some (e3, b3)" and b1: "b1 = writes # b3"
        by (auto split: nat.splits option.splits)
      from "2.IH"(1) [OF Inr p [symmetric] False n g]
      have "concat b3 = assignments wd (layersReached k wd f children)" .
      then show ?thesis using ix n b1 by simp
    qed
  qed
  show ?case
    using head tail bs by (simp add: assignments_append)
qed

lemma set_concat_step:
  assumes "g < length bs" "bs ! g \<noteq> []"
  shows "set (hd (bs ! g) # concat (bs[g := tl (bs ! g)])) = set (concat bs)"
proof -
  have bs: "bs = take g bs @ (hd (bs ! g) # tl (bs ! g)) # drop (Suc g) bs"
    using assms by (simp add: id_take_nth_drop)
  have up: "bs[g := tl (bs ! g)] = take g bs @ tl (bs ! g) # drop (Suc g) bs"
    using assms by (simp add: upd_conv_take_nth_drop)
  have "set (concat bs) = set (concat (take g bs @ (hd (bs ! g) # tl (bs ! g)) # drop (Suc g) bs))"
    using bs by simp
  also have "\<dots> = set (hd (bs ! g) # concat (take g bs @ tl (bs ! g) # drop (Suc g) bs))"
    by auto
  finally show ?thesis using up by simp
qed

lemma dom_applyWrites: "dom (applyWrites ws files) = dom files \<union> fst ` set ws"
  by (induction ws arbitrary: files) auto

lemma applyWrites_entry:
  "applyWrites ws files k = Some v \<Longrightarrow> files k = Some v \<or> (k, v) \<in> set ws"
proof (induction ws arbitrary: files)
  case Nil
  then show ?case by simp
next
  case (Cons kv ws)
  from Cons.prems have "applyWrites ws (files(fst kv \<mapsto> snd kv)) k = Some v"
    by simp
  from Cons.IH [OF this]
  have "(files(fst kv \<mapsto> snd kv)) k = Some v \<or> (k, v) \<in> set ws" .
  then show ?case
    by (cases "k = fst kv") (auto simp: prod_eq_iff)
qed

lemma applyWrites_append:
  "applyWrites (xs @ ys) files = applyWrites ys (applyWrites xs files)"
  by (induction xs arbitrary: files) auto

lemma applyWrites_untouched: "k \<notin> fst ` set ws \<Longrightarrow> applyWrites ws files k = files k"
  by (induction ws arbitrary: files) auto

lemma applyWrites_last:
  "k \<notin> fst ` set post \<Longrightarrow> applyWrites (pre @ (k, v) # post) files k = Some v"
  by (simp add: applyWrites_append applyWrites_untouched)

lemma runWrites_order:
  "runWrites sch w bs files = Returns files' \<Longrightarrow>
     files' = applyWrites (writeOrder sch w bs) files"
  by (induction sch w bs files rule: runWrites.induct)
     (auto split: if_splits option.splits)

lemma set_writeOrder:
  "runWrites sch w bs files = Returns files' \<Longrightarrow>
   (\<forall>g. w = Some g \<longrightarrow> g < length bs \<and> bs ! g \<noteq> []) \<Longrightarrow>
     set (writeOrder sch w bs) = set (concat bs)"
proof (induction sch w bs files rule: runWrites.induct)
  case (1 w bs files)
  then show ?case
    by (cases w) (simp_all add: set_concat_step del: set_simps set_concat)
next
  case (2 g sch w bs files)
  show ?case
  proof (cases "g < length bs \<and> bs ! g \<noteq> []")
    case False
    with 2 show ?thesis by auto
  next
    case ok: True
    show ?thesis
    proof (cases w)
      case None
      with 2 ok show ?thesis by auto
    next
      case (Some g')
      with "2.prems" ok have same: "g' = g" by (auto split: if_splits)
      with "2.prems" ok Some have
        "runWrites sch None (bs[g := tl (bs ! g)])
           (files(fst (hd (bs ! g)) \<mapsto> snd (hd (bs ! g)))) = Returns files'" by simp
      from "2.IH"(2) [OF ok Some same this]
      have "set (writeOrder sch None (bs[g := tl (bs ! g)])) = set (concat (bs[g := tl (bs ! g)]))"
        by simp
      then have "set (writeOrder (g # sch) w bs) = set (hd (bs ! g) # concat (bs[g := tl (bs ! g)]))"
        using ok Some same by simp
      then show ?thesis
        using set_concat_step [of g bs] ok by simp
    qed
  qed
qed

lemma keys_assignments:
  "fst ` set (assignments wd ls) = {Clean wd (titleOf l) | l. l \<in> set ls \<and> titleOf l \<noteq> []}"
  by (induction ls) (auto simp: Let_def)

lemma buildFileMap_map:
  assumes "buildFileMap n wd f rootDesc = Some (Returns (Inr files))"
  shows "dom files = {Clean wd (titleOf l) | l. l \<in> set (layersReached n wd f [rootDesc]) \<and> titleOf l \<noteq> []}
       \<and> (\<forall>k l. files k = Some l \<longrightarrow>
             l \<in> set (layersReached n wd f [rootDesc]) \<and> titleOf l \<noteq> [] \<and> Clean wd (titleOf l) = k)
       \<and> (\<exists>bs. goroutines n wd f [rootDesc] = Some ([], bs)
             \<and> files = applyWrites (writeOrder (Schedule wd) None bs) Map.empty
             \<and> set (writeOrder (Schedule wd) None bs) =
                 set (assignments wd (layersReached n wd f [rootDesc])))"
proof -
  from assms obtain errs bs where
    g: "goroutines n wd f [rootDesc] = Some (errs, bs)" and
    r: "runWrites (Schedule wd) None bs Map.empty = Returns files" and
    e: "errs = []"
    by (auto simp: buildFileMap_def Dispatch_def Let_def
             split: option.splits go.splits prod.splits if_splits)
  let ?ws = "writeOrder (Schedule wd) None bs"
  have f: "files = applyWrites ?ws Map.empty"
    using runWrites_order [OF r] .
  have s: "set ?ws = set (assignments wd (layersReached n wd f [rootDesc]))"
    using set_writeOrder [OF r] goroutines_layers [OF g] by simp
  have "dom files = fst ` set ?ws"
    using f dom_applyWrites [of ?ws Map.empty] by simp
  moreover have "fst ` set ?ws =
      {Clean wd (titleOf l) | l. l \<in> set (layersReached n wd f [rootDesc]) \<and> titleOf l \<noteq> []}"
    by (simp only: s keys_assignments)
  ultimately have a: "dom files = {Clean wd (titleOf l) | l. l \<in> set (layersReached n wd f [rootDesc]) \<and> titleOf l \<noteq> []}"
    by simp
  have b: "\<forall>k l. files k = Some l \<longrightarrow>
             l \<in> set (layersReached n wd f [rootDesc]) \<and> titleOf l \<noteq> [] \<and> Clean wd (titleOf l) = k"
  proof (intro allI impI)
    fix k l assume "files k = Some l"
    then have "(k, l) \<in> set ?ws"
      using applyWrites_entry [of ?ws Map.empty k l] f by simp
    then show "l \<in> set (layersReached n wd f [rootDesc]) \<and> titleOf l \<noteq> [] \<and> Clean wd (titleOf l) = k"
      unfolding s set_assignments by auto
  qed
  from a b g e f s show ?thesis by blast
qed

lemmas sample_eval = sampleWorld_def sampleIndex_def sampleManifest_def sampleLayer_def
  handler_def fetchIndex_def fetchManifest_def isManifest_def isIndex_def
  MediaTypeDockerSchema2Manifest_def MediaTypeImageManifest_def MediaTypeDockerSchema2ManifestList_def
  MediaTypeImageIndex_def AnnotationTitle_def Annotation_def MediaTypeApplicationOctetStream_def

lemma sample_goroutines:
  "goroutines (Suc 0) ((sampleWorld h)\<lparr>Copy := cp, Schedule := sch\<rparr>) 0 [sampleIndex] =
     Some ([], [[], [(''Packages'', sampleLayer ''sha256:1a'')],
                    [(''Packages'', sampleLayer ''sha256:1b'')]])"
  by (simp add: sample_eval Let_def)

lemma sample_run_under:
  "buildFileMap (Suc 0) ((sampleWorld h)\<lparr>Copy := cp, Schedule := sch\<rparr>) 0 sampleIndex =
     Some (case runWrites sch None [[], [(''Packages'', sampleLayer ''sha256:1a'')],
                    [(''Packages'', sampleLayer ''sha256:1b'')]] Map.empty of
             Panics p \<Rightarrow> Panics p | Returns files \<Rightarrow> Returns (Inr files))"
  by (cases "runWrites sch None [[], [(''Packages'', sampleLayer ''sha256:1a'')],
                    [(''Packages'', sampleLayer ''sha256:1b'')]] Map.empty")
     (simp_all add: buildFileMap_def Dispatch_def sample_goroutines del: goroutines.simps)

lemma sample_run: "buildFileMap (Suc 0) (sampleWorld h) 0 sampleIndex =
   Some (Returns (Inr [''Packages'' \<mapsto> sampleLayer ''sha256:1b'']))"
  using sample_run_under [where h = h and cp = "Copy (sampleWorld h)" and sch = "[]"]
  by (simp add: sampleWorld_def)

text \<open>
  Claim C6, that \<open>buildFileMap\<close> produces for every root descriptor a map with one entry
  for each titled layer, does not hold of the code.  For an index of two manifests that
  both have a layer titled \<open>Packages\<close>, \<^verbatim>\<open>images.Dispatch\<close> runs the two handlers in two
  goroutines that assign to the one map \<^verbatim>\<open>files\<close> without a lock.  When the second
  assignment begins before the first has ended, the runtime stops the process with
  \<^verbatim>\<open>concurrent map writes\<close> and there is no map.  When the assignments do not overlap
  there is the one entry of the claim, and it is the layer of the manifest whose
  assignment came last: the first manifest's under one schedule, the second's under
  another.  (\<open>buildFileMap_map\<close>: whenever a map is returned, its keys are the cleaned
  titles of the layers reached, and it is the assignments applied in the order in which
  they ended.)
\<close>

theorem buildFileMap_concurrent_map_writes:
  "buildFileMap (Suc 0) ((sampleWorld [])\<lparr>Schedule := [1, 2]\<rparr>) 0 sampleIndex =
     Some (Panics ''concurrent map writes'')
   \<and> buildFileMap (Suc 0) ((sampleWorld [])\<lparr>Schedule := [2, 2, 1, 1]\<rparr>) 0 sampleIndex =
       Some (Returns (Inr [''Packages'' \<mapsto> sampleLayer ''sha256:1a'']))
   \<and> buildFileMap (Suc 0) ((sampleWorld [])\<lparr>Schedule := [1, 1, 2, 2]\<rparr>) 0 sampleIndex =
       Some (Returns (Inr [''Packages'' \<mapsto> sampleLayer ''sha256:1b'']))"
proof -
  have w: "(sampleWorld [])\<lparr>Schedule := sch\<rparr> =
           (sampleWorld [])\<lparr>Copy := Copy (sampleWorld []), Schedule := sch\<rparr>" for sch
    by simp
  show ?thesis
    unfolding w sample_run_under by simp
qed

section \<open>The cache and the acquire engine\<close>

lemma doCacheStuff_writer:
  assumes "doCacheStuff n wd uri ref m = Some (res, m')"
  shows "\<exists>d. writer m' = writer m @ d \<and> (\<forall>x\<in>set d. code x = 102)"
  using assms
  by (auto simp: doCacheStuff_def Statusf_def Let_def
           split: option.splits sum.splits prod.splits go.splits)

lemma doCacheStuff_msgReader:
  assumes "doCacheStuff n wd uri ref m = Some (res, m')"
  shows "msgReader m' = msgReader m"
  using assms
  by (auto simp: doCacheStuff_def Statusf_def Let_def
           split: option.splits sum.splits prod.splits go.splits)

lemma doCacheStuff_hit:
  "cacheByOCIRef m (refString ref) = Some e \<Longrightarrow>
     doCacheStuff n wd uri ref m = Some (Returns (Inr e), m)"
  by (simp add: doCacheStuff_def)

lemma doCacheStuff_stored:
  assumes "doCacheStuff n wd uri ref m = Some (Returns (Inr e), m')"
  shows "cacheByOCIRef m' (refString ref) = Some e"
  using assms
  by (auto simp: doCacheStuff_def Statusf_def Let_def
           split: option.splits sum.splits prod.splits go.splits)

lemma doCacheStuff_others:
  assumes "doCacheStuff n wd uri ref m = Some (res, m')"
  shows "(\<forall>k. k \<noteq> refString ref \<longrightarrow> cacheByOCIRef m' k = cacheByOCIRef m k)
       \<and> (\<forall>k x. cacheByOCIRef m k = Some x \<longrightarrow> cacheByOCIRef m' k = Some x)"
  using assms
  by (auto simp: doCacheStuff_def Statusf_def Let_def
           split: option.splits sum.splits prod.splits go.splits)

lemma acquire_started:
  assumes "acquire n wd msg m = Some (Returns (started, err), m')"
  shows "\<exists>d. writer m' = writer m @ d \<and> (started \<longleftrightarrow> (\<exists>x\<in>set d. code x = 200))
            \<and> (err = None \<longrightarrow> started)"
proof (cases "parseURIFields wd msg")
  case (Inl e)
  with assms show ?thesis
    by (auto simp: acquire_def Statusf_def Let_def)
next
  case (Inr p)
  obtain ref title where p: "p = (ref, title)" by (cases p)
  let ?uri = "FieldOf msg FieldURI"
  let ?m1 = "Statusf ?uri (ParsingMsg msg) m"
  from assms Inr p obtain res m2 where dc: "doCacheStuff n wd ?uri ref ?m1 = Some (Returns res, m2)"
    by (auto simp: acquire_def Let_def split: option.splits go.splits)
  from doCacheStuff_writer [OF dc] obtain d0 where
    d0: "writer m2 = writer ?m1 @ d0" "\<forall>x\<in>set d0. code x = 102" by blast
  then have w2: "writer m2 = writer m @ (Status ?uri (ParsingMsg msg) # d0)"
    by (simp add: Statusf_def)
  show ?thesis
  proof (cases res)
    case (Inl e)
    with assms Inr p dc have "m' = m2" "\<not> started" "err \<noteq> None"
      by (auto simp: acquire_def Let_def)
    with w2 d0(2) show ?thesis by auto
  next
    case c: (Inr c)
    show ?thesis
    proof (cases "fileMap c title")
      case None
      with assms Inr p dc c have "m' = m2" "\<not> started" "err \<noteq> None"
        by (auto simp: acquire_def Let_def)
      with w2 d0(2) show ?thesis by auto
    next
      case (Some desc)
      with assms Inr p dc c w2 show ?thesis
        by (auto simp: acquire_def Let_def Statusf_def StartURI_def Warningf_def FinishURI_def
                 split: sum.splits option.splits go.splits bool.splits if_splits)
    qed
  qed
qed

lemma acquire_cache:
  assumes "acquire n wd msg m = Some (res, m')"
  shows "(\<forall>k x. cacheByOCIRef m k = Some x \<longrightarrow> cacheByOCIRef m' k = Some x)
       \<and> msgReader m' = msgReader m"
proof (cases "parseURIFields wd msg")
  case (Inl e)
  with assms show ?thesis
    by (auto simp: acquire_def Statusf_def Let_def)
next
  case (Inr p)
  obtain ref title where p: "p = (ref, title)" by (cases p)
  let ?uri = "FieldOf msg FieldURI"
  let ?m1 = "Statusf ?uri (ParsingMsg msg) m"
  from assms Inr p obtain r2 m2 where dc: "doCacheStuff n wd ?uri ref ?m1 = Some (r2, m2)"
    by (auto simp: acquire_def Let_def split: option.splits)
  from doCacheStuff_others [OF dc] doCacheStuff_msgReader [OF dc]
  have keep: "\<forall>k x. cacheByOCIRef m k = Some x \<longrightarrow> cacheByOCIRef m2 k = Some x"
    and rd: "msgReader m2 = msgReader m"
    by (simp_all add: Statusf_def)
  have "cacheByOCIRef m' = cacheByOCIRef m2 \<and> msgReader m' = msgReader m2"
    using assms Inr p dc
    by (auto simp: acquire_def Let_def Statusf_def
             split: sum.splits option.splits go.splits bool.splits if_splits)
  with keep rd show ?thesis by simp
qed

lemma handleURIAcquire_cache:
  assumes "handleURIAcquire n wd msg m = Some (res, m')"
  shows "(\<forall>k x. cacheByOCIRef m k = Some x \<longrightarrow> cacheByOCIRef m' k = Some x)
       \<and> msgReader m' = msgReader m"
proof -
  from assms obtain r1 m1 where a: "acquire n wd msg m = Some (r1, m1)"
    by (auto simp: handleURIAcquire_def split: option.splits)
  have "cacheByOCIRef m' = cacheByOCIRef m1 \<and> msgReader m' = msgReader m1"
    using assms a
    by (auto simp: handleURIAcquire_def Let_def split: go.splits option.splits prod.splits)
  with acquire_cache [OF a] show ?thesis by simp
qed

lemma loop_cache:
  "loop n wd m = Some (res, m') \<Longrightarrow>
     \<forall>k x. cacheByOCIRef m k = Some x \<longrightarrow> cacheByOCIRef m' k = Some x"
proof (induction n arbitrary: m)
  case 0
  then show ?case by simp
next
  case (Suc n)
  from Suc.prems obtain msg err rd where rm: "ReadMessage n (msgReader m) [] = Some ((msg, err), rd)"
    by (auto split: option.splits)
  let ?m1 = "m\<lparr>msgReader := rd\<rparr>"
  consider (stop) "cacheByOCIRef m' = cacheByOCIRef m"
    | (acq) q u m2 where "msg = Some q" "handleURIAcquire n wd q ?m1 = Some (Returns u, m2)"
        "loop n wd m2 = Some (res, m')"
    | (pan) q p where "msg = Some q" "handleURIAcquire n wd q ?m1 = Some (Panics p, m')"
    | (log) q where "msg = Some q"
        "loop n wd (?m1\<lparr>writer := Logf (StatusCode q) (Description q) (writer ?m1)\<rparr>) = Some (res, m')"
    using Suc.prems rm
    by (auto simp: Let_def split: if_splits option.splits go.splits)
  then show ?case
  proof cases
    case stop
    then show ?thesis by simp
  next
    case acq
    from handleURIAcquire_cache [OF acq(2)] Suc.IH [OF acq(3)] show ?thesis by simp
  next
    case pan
    from handleURIAcquire_cache [OF pan(2)] show ?thesis by simp
  next
    case log
    from Suc.IH [OF log(2)] show ?thesis by simp
  qed
qed

lemma digestDiffers_wellformed:
  assumes "CHR '':'' \<notin> set alg"
  shows "digestDiffers (alg @ '':'' @ enc) (''sha256:'' @ h) = Returns (alg = ''sha256'' \<and> enc \<noteq> h)"
proof -
  have t: "takeWhile (\<lambda>x. x \<noteq> CHR '':'') (alg @ CHR '':'' # enc) = alg"
    using assms by (induction alg) auto
  have d: "dropWhile (\<lambda>x. x \<noteq> CHR '':'') (alg @ CHR '':'' # enc) = CHR '':'' # enc"
    using assms by (induction alg) auto
  show ?thesis
    by (simp add: digestDiffers_def Algorithm_def Encoded_def t d)
qed

lemmas field_eval = FieldOf_def FieldURI_def FieldFilename_def FieldTargetRepoURI_def sampleRequest_def

lemma sample_parse_general:
  assumes "ParseDockerRef wd = ParseDockerRef (sampleWorld h)"
  shows "parseURIFields wd sampleRequest =
           Inr (\<lparr>refString = ''reg.example/repo:latest'', refDomain = ''reg.example''\<rparr>, ''Packages'')"
    and "parseURIFields wd
           (sampleRequest\<lparr>Fields := [FieldURI \<mapsto> ''oci://reg.example/repo:latest/Missing'',
                                      FieldFilename \<mapsto> ''/tmp/Missing'']\<rparr>) =
           Inr (\<lparr>refString = ''reg.example/repo:latest'', refDomain = ''reg.example''\<rparr>, ''Missing'')"
  by (simp_all add: assms parseURIFields_def field_eval parseURI_def TrimPrefix_def TrimSuffix_def
        HasPrefix_def HasSuffix_def SplitN2_def Let_def sampleWorld_def)

lemma sample_parse:
  "parseURIFields (sampleWorld h) sampleRequest =
     Inr (\<lparr>refString = ''reg.example/repo:latest'', refDomain = ''reg.example''\<rparr>, ''Packages'')"
  by (rule sample_parse_general) simp

lemma sample_resolver: "ociResolver ((sampleWorld h)\<lparr>Copy := cp\<rparr>) ref = Inr 0"
  by (simp add: ociResolver_def sampleWorld_def)

lemma sample_fetcher: "ociFetcher ((sampleWorld h)\<lparr>Copy := cp\<rparr>) ref 0 = Inr (0, sampleIndex)"
  by (simp add: ociFetcher_def sampleWorld_def)

lemma sample_run_copy:
  "buildFileMap (Suc 0) ((sampleWorld h)\<lparr>Copy := cp\<rparr>) 0 sampleIndex =
     Some (Returns (Inr [''Packages'' \<mapsto> sampleLayer ''sha256:1b'']))"
proof -
  have "(sampleWorld h)\<lparr>Copy := cp\<rparr> = (sampleWorld h)\<lparr>Copy := cp, Schedule := []\<rparr>"
    by (simp add: sampleWorld_def)
  then show ?thesis
    using sample_run_under [where h = h and cp = cp and sch = "[]"] by simp
qed

lemma sample_cache_copy:
  "cacheByOCIRef m ''reg.example/repo:latest'' = None \<Longrightarrow>
   \<exists>m2. doCacheStuff (Suc 0) ((sampleWorld h)\<lparr>Copy := cp\<rparr>) u
          \<lparr>refString = ''reg.example/repo:latest'', refDomain = ''reg.example''\<rparr> m =
        Some (Returns (Inr \<lparr>fetcher = 0, fileMap = [''Packages'' \<mapsto> sampleLayer ''sha256:1b'']\<rparr>), m2)"
  by (simp add: doCacheStuff_def sample_run_copy sample_resolver sample_fetcher Let_def)

lemma sample_cache:
  "cacheByOCIRef m ''reg.example/repo:latest'' = None \<Longrightarrow>
   \<exists>m2. doCacheStuff (Suc 0) (sampleWorld h) u
          \<lparr>refString = ''reg.example/repo:latest'', refDomain = ''reg.example''\<rparr> m =
        Some (Returns (Inr \<lparr>fetcher = 0, fileMap = [''Packages'' \<mapsto> sampleLayer ''sha256:1b'']\<rparr>), m2)"
  using sample_cache_copy [where cp = "Copy (sampleWorld h)" and h = h and m = m and u = u]
  by simp

lemma sample_io:
  "Fetch ((sampleWorld h)\<lparr>Copy := cp\<rparr>) 0 (sampleLayer ''sha256:1b'') = Inr 4"
  "Create ((sampleWorld h)\<lparr>Copy := cp\<rparr>) ''/tmp/Packages'' = Inr 5"
  "Copy (sampleWorld h) 5 4 = Inr ''data''"
  "CloseFile (sampleWorld h) 5 = None"
  "CloseReader (sampleWorld h) 4 = None"
  "SHA256 (sampleWorld h) ''data'' = h"
  "Fetch (sampleWorld h) 0 (sampleLayer ''sha256:1b'') = Inr 4"
  "Create (sampleWorld h) ''/tmp/Packages'' = Inr 5"
  by (simp_all add: sampleWorld_def sampleLayer_def)

text \<open>
  Claim C1.  Let the steps of \<open>acquire\<close> up to the closing of the blob succeed, and let
  the declared digest of the descriptor be \<open>alg:enc\<close>.  If \<open>alg\<close> is \<open>sha256\<close>, the
  algorithm of the computed digest, and \<open>enc\<close> differs from the computed hash, \<open>acquire\<close>
  fails, after the start message, with an error that carries the declared and the
  computed digest.  If they are identical it succeeds and its last message is \<open>URI Done\<close>.
  If \<open>alg\<close> is another algorithm, nothing is compared and it succeeds all the same.
\<close>

theorem acquire_digest_check:
  assumes "parseURIFields wd msg = Inr (ref, title)"
      and "doCacheStuff n wd (FieldOf msg FieldURI) ref
             (Statusf (FieldOf msg FieldURI) (ParsingMsg msg) m) = Some (Returns (Inr c), m2)"
      and "fileMap c title = Some desc"
      and "Fetch wd (fetcher c) desc = Inr r"
      and "Create wd (FieldOf msg FieldFilename) = Inr w"
      and "Copy wd w r = Inr bytes"
      and "CloseFile wd w = None"
      and "CloseReader wd r = None"
      and "Digest desc = alg @ '':'' @ enc"
      and "CHR '':'' \<notin> set alg"
  shows "\<exists>m'. acquire n wd msg m =
           Some (Returns (True,
                   if alg = ''sha256'' \<and> enc \<noteq> SHA256 wd bytes
                   then Some (DigestMismatch title (Digest desc) (''sha256:'' @ SHA256 wd bytes))
                   else None), m')
         \<and> last (writer m') =
             (if alg = ''sha256'' \<and> enc \<noteq> SHA256 wd bytes
              then URIStart (FieldOf msg FieldURI) [] (Size desc) False
              else URIDone (FieldOf msg FieldURI) (FieldOf msg FieldFilename) [] [] False False
                     (Size desc) (SHA256 wd bytes))"
proof -
  have dd: "digestDiffers (Digest desc) (''sha256:'' @ SHA256 wd bytes) =
              Returns (alg = ''sha256'' \<and> enc \<noteq> SHA256 wd bytes)"
    using digestDiffers_wellformed [OF assms(10)] assms(9) by simp
  show ?thesis
  proof (cases "alg = ''sha256'' \<and> enc \<noteq> SHA256 wd bytes")
    case True
    then have "digestDiffers (Digest desc) (''sha256:'' @ SHA256 wd bytes) = Returns True"
      using dd by simp
    then show ?thesis
      using assms(1-8) True
      by (simp add: acquire_def Let_def StartURI_def FinishURI_def)
  next
    case False
    then have "digestDiffers (Digest desc) (''sha256:'' @ SHA256 wd bytes) = Returns False"
      using dd by simp
    then show ?thesis
      using assms(1-8) False
      by (simp add: acquire_def Let_def StartURI_def FinishURI_def)
  qed
qed

theorem acquire_digest_check_witness:
  "(\<exists>m'. acquire (Suc 0) (sampleWorld ''1b'') sampleRequest (New \<lparr>pending = [], final = EOF\<rparr>) =
          Some (Returns (True, None), m'))
   \<and> (\<exists>m'. acquire (Suc 0) (sampleWorld ''ff'') sampleRequest (New \<lparr>pending = [], final = EOF\<rparr>) =
          Some (Returns (True, Some (DigestMismatch ''Packages'' ''sha256:1b'' ''sha256:ff'')), m'))"
proof -
  let ?m = "New \<lparr>pending = [], final = EOF\<rparr>"
  let ?ref = "\<lparr>refString = ''reg.example/repo:latest'', refDomain = ''reg.example''\<rparr>"
  let ?c = "\<lparr>fetcher = 0, fileMap = [''Packages'' \<mapsto> sampleLayer ''sha256:1b'']\<rparr>"
  have fresh: "cacheByOCIRef (Statusf u t ?m) ''reg.example/repo:latest'' = None" for u t
    by (simp add: Statusf_def New_def)
  have fn: "FieldOf sampleRequest FieldFilename = ''/tmp/Packages''"
    by (simp add: field_eval)
  have dg: "Digest (sampleLayer ''sha256:1b'') = ''sha256'' @ '':'' @ ''1b''"
    by (simp add: sampleLayer_def)
  have nc: "CHR '':'' \<notin> set ''sha256''" by simp
  have lk: "fileMap ?c ''Packages'' = Some (sampleLayer ''sha256:1b'')" by simp
  have "\<exists>m'. acquire (Suc 0) (sampleWorld h) sampleRequest ?m =
           Some (Returns (True,
                   if ''sha256'' = ''sha256'' \<and> ''1b'' \<noteq> SHA256 (sampleWorld h) ''data''
                   then Some (DigestMismatch ''Packages'' (Digest (sampleLayer ''sha256:1b''))
                                (''sha256:'' @ SHA256 (sampleWorld h) ''data''))
                   else None), m')" for h
  proof -
    from sample_cache [OF fresh] obtain m2 where
      c: "doCacheStuff (Suc 0) (sampleWorld h) (FieldOf sampleRequest FieldURI) ?ref
            (Statusf (FieldOf sampleRequest FieldURI) (ParsingMsg sampleRequest) ?m) =
          Some (Returns (Inr ?c), m2)"
      by blast
    from acquire_digest_check [OF sample_parse c lk, of 4 5 "''data''" "''sha256''" "''1b''"]
    show ?thesis
      using sample_io [where h = h] fn dg nc by auto
  qed
  from this [of "''1b''"] this [of "''ff''"] show ?thesis
    by (simp add: sample_io sampleLayer_def)
qed

text \<open>
  Claim C2.  \<open>acquire\<close> returns \<open>started = false\<close>, with the error, when the parsing of
  the fields fails, when the cache or build fails, and when the file is not in the index:
  no \<open>200 URI Start\<close> has been written then.  Once these three have succeeded it writes
  the \<open>200 URI Start\<close> (the media type only adds a warning before it), and from there it
  returns \<open>started = true\<close>: with the error when the fetch of the blob, the creation of the
  file, the copy, either close or the digest check fails, and without one on success.
  In each case the driver writes, for a failure, a \<open>200 URI Start\<close> of its own exactly when
  \<open>started\<close> is false and then the \<open>400 URI Failure\<close>, and nothing for success.  Whenever
  \<open>acquire\<close> returns, \<open>started\<close> is true exactly when it has written a \<open>200 URI Start\<close>.
\<close>

theorem acquire_started_flag:
  fixes n :: nat and wd :: World and msg :: Message and m :: Method
  defines "uri \<equiv> FieldOf msg FieldURI"
      and "filename \<equiv> FieldOf msg FieldFilename"
      and "m1 \<equiv> Statusf (FieldOf msg FieldURI) (ParsingMsg msg) m"
      and "fails \<equiv> \<lambda>m' started e.
             acquire n wd msg m = Some (Returns (started, Some e), m')
             \<and> handleURIAcquire n wd msg m =
                 Some (Returns (),
                       m'\<lparr>writer := writer m' @
                          (if started then [] else [URIStart (FieldOf msg FieldURI) [] 0 False])
                          @ [URIFailure (FieldOf msg FieldURI) e e False False]\<rparr>)"
  shows
   "(\<forall>e. parseURIFields wd msg = Inl e \<longrightarrow> fails m1 False e)
  \<and> (\<forall>ref title e m2.
        parseURIFields wd msg = Inr (ref, title)
        \<and> doCacheStuff n wd uri ref m1 = Some (Returns (Inl e), m2)
      \<longrightarrow> fails m2 False e)
  \<and> (\<forall>ref title c m2.
        parseURIFields wd msg = Inr (ref, title)
        \<and> doCacheStuff n wd uri ref m1 = Some (Returns (Inr c), m2)
        \<and> fileMap c title = None
      \<longrightarrow> fails m2 False (FileNotFound (refString ref) title))
  \<and> (\<forall>ref title c m2 desc.
        parseURIFields wd msg = Inr (ref, title)
        \<and> doCacheStuff n wd uri ref m1 = Some (Returns (Inr c), m2)
        \<and> fileMap c title = Some desc
      \<longrightarrow> (\<exists>m5 d.
             writer m5 = writer m2 @ d @ [URIStart uri [] (Size desc) False]
           \<and> (\<forall>x\<in>set d. code x = 102 \<or> code x = 104)
           \<and> (\<forall>e. Fetch wd (fetcher c) desc = Inl e \<longrightarrow> fails m5 True e)
           \<and> (\<forall>r e. Fetch wd (fetcher c) desc = Inr r \<and> Create wd filename = Inl e
                  \<longrightarrow> fails m5 True e)
           \<and> (\<forall>r w e. Fetch wd (fetcher c) desc = Inr r \<and> Create wd filename = Inr w
                    \<and> Copy wd w r = Inl e
                  \<longrightarrow> fails m5 True e)
           \<and> (\<forall>r w bytes e. Fetch wd (fetcher c) desc = Inr r \<and> Create wd filename = Inr w
                    \<and> Copy wd w r = Inr bytes \<and> CloseFile wd w = Some e
                  \<longrightarrow> fails m5 True e)
           \<and> (\<forall>r w bytes e. Fetch wd (fetcher c) desc = Inr r \<and> Create wd filename = Inr w
                    \<and> Copy wd w r = Inr bytes \<and> CloseFile wd w = None
                    \<and> CloseReader wd r = Some e
                  \<longrightarrow> fails m5 True e)
           \<and> (\<forall>r w bytes. Fetch wd (fetcher c) desc = Inr r \<and> Create wd filename = Inr w
                    \<and> Copy wd w r = Inr bytes \<and> CloseFile wd w = None
                    \<and> CloseReader wd r = None
                    \<and> digestDiffers (Digest desc) (''sha256:'' @ SHA256 wd bytes) = Returns True
                  \<longrightarrow> fails m5 True
                        (DigestMismatch title (Digest desc) (''sha256:'' @ SHA256 wd bytes)))
           \<and> (\<forall>r w bytes. Fetch wd (fetcher c) desc = Inr r \<and> Create wd filename = Inr w
                    \<and> Copy wd w r = Inr bytes \<and> CloseFile wd w = None
                    \<and> CloseReader wd r = None
                    \<and> digestDiffers (Digest desc) (''sha256:'' @ SHA256 wd bytes) = Returns False
                  \<longrightarrow> acquire n wd msg m =
                        Some (Returns (True, None),
                              m5\<lparr>writer := writer m5 @
                                 [URIDone uri filename [] [] False False (Size desc)
                                    (SHA256 wd bytes)]\<rparr>)
                      \<and> handleURIAcquire n wd msg m =
                        Some (Returns (),
                              m5\<lparr>writer := writer m5 @
                                 [URIDone uri filename [] [] False False (Size desc)
                                    (SHA256 wd bytes)]\<rparr>))))
  \<and> (\<forall>started err m'.
        acquire n wd msg m = Some (Returns (started, err), m')
      \<longrightarrow> (\<exists>d. writer m' = writer m @ d \<and> (started \<longleftrightarrow> (\<exists>x\<in>set d. code x = 200)))
          \<and> (err = None \<longrightarrow> started))"
proof -
  note defs = uri_def filename_def m1_def fails_def
  note unf = acquire_def handleURIAcquire_def Let_def StartURI_def FailedURI_def FinishURI_def
  have A: "\<forall>e. parseURIFields wd msg = Inl e \<longrightarrow> fails m1 False e"
    by (simp add: defs unf)
  have B: "\<forall>ref title e m2.
        parseURIFields wd msg = Inr (ref, title)
        \<and> doCacheStuff n wd uri ref m1 = Some (Returns (Inl e), m2)
      \<longrightarrow> fails m2 False e"
    by (simp add: defs unf)
  have C: "\<forall>ref title c m2.
        parseURIFields wd msg = Inr (ref, title)
        \<and> doCacheStuff n wd uri ref m1 = Some (Returns (Inr c), m2)
        \<and> fileMap c title = None
      \<longrightarrow> fails m2 False (FileNotFound (refString ref) title)"
    by (simp add: defs unf)
  have D: "\<exists>m5 d.
             writer m5 = writer m2 @ d @ [URIStart uri [] (Size desc) False]
           \<and> (\<forall>x\<in>set d. code x = 102 \<or> code x = 104)
           \<and> (\<forall>e. Fetch wd (fetcher c) desc = Inl e \<longrightarrow> fails m5 True e)
           \<and> (\<forall>r e. Fetch wd (fetcher c) desc = Inr r \<and> Create wd filename = Inl e
                  \<longrightarrow> fails m5 True e)
           \<and> (\<forall>r w e. Fetch wd (fetcher c) desc = Inr r \<and> Create wd filename = Inr w
                    \<and> Copy wd w r = Inl e
                  \<longrightarrow> fails m5 True e)
           \<and> (\<forall>r w bytes e. Fetch wd (fetcher c) desc = Inr r \<and> Create wd filename = Inr w
                    \<and> Copy wd w r = Inr bytes \<and> CloseFile wd w = Some e
                  \<longrightarrow> fails m5 True e)
           \<and> (\<forall>r w bytes e. Fetch wd (fetcher c) desc = Inr r \<and> Create wd filename = Inr w
                    \<and> Copy wd w r = Inr bytes \<and> CloseFile wd w = None
                    \<and> CloseReader wd r = Some e
                  \<longrightarrow> fails m5 True e)
           \<and> (\<forall>r w bytes. Fetch wd (fetcher c) desc = Inr r \<and> Create wd filename = Inr w
                    \<and> Copy wd w r = Inr bytes \<and> CloseFile wd w = None
                    \<and> CloseReader wd r = None
                    \<and> digestDiffers (Digest desc) (''sha256:'' @ SHA256 wd bytes) = Returns True
                  \<longrightarrow> fails m5 True
                        (DigestMismatch title (Digest desc) (''sha256:'' @ SHA256 wd bytes)))
           \<and> (\<forall>r w bytes. Fetch wd (fetcher c) desc = Inr r \<and> Create wd filename = Inr w
                    \<and> Copy wd w r = Inr bytes \<and> CloseFile wd w = None
                    \<and> CloseReader wd r = None
                    \<and> digestDiffers (Digest desc) (''sha256:'' @ SHA256 wd bytes) = Returns False
                  \<longrightarrow> acquire n wd msg m =
                        Some (Returns (True, None),
                              m5\<lparr>writer := writer m5 @
                                 [URIDone uri filename [] [] False False (Size desc)
                                    (SHA256 wd bytes)]\<rparr>)
                      \<and> handleURIAcquire n wd msg m =
                        Some (Returns (),
                              m5\<lparr>writer := writer m5 @
                                 [URIDone uri filename [] [] False False (Size desc)
                                    (SHA256 wd bytes)]\<rparr>))"
    if p: "parseURIFields wd msg = Inr (ref, title)"
      and dc: "doCacheStuff n wd uri ref m1 = Some (Returns (Inr c), m2)"
      and lk: "fileMap c title = Some desc"
    for ref title c m2 desc
  proof -
    let ?m3 = "Statusf uri (FoundDescriptor title desc) m2"
    let ?warn = "MediaType desc \<noteq> MediaTypeApplicationOctetStream
                   \<and> MediaType desc \<noteq> MediaTypeApplicationXBinary"
    let ?d = "Status uri (FoundDescriptor title desc)
              # (if ?warn then [Warning title MediaTypeApplicationXBinary (MediaType desc)] else [])"
    let ?m5 = "m2\<lparr>writer := writer m2 @ ?d @ [URIStart uri [] (Size desc) False]\<rparr>"
    show ?thesis
      apply (rule exI [where x = ?m5])
      apply (rule exI [where x = ?d])
      using p dc lk
      apply (simp add: defs unf Statusf_def Warningf_def)
      done
  qed
  have G: "\<forall>started err m'.
        acquire n wd msg m = Some (Returns (started, err), m')
      \<longrightarrow> (\<exists>d. writer m' = writer m @ d \<and> (started \<longleftrightarrow> (\<exists>x\<in>set d. code x = 200)))
          \<and> (err = None \<longrightarrow> started)"
    using acquire_started by blast
  from D have D': "\<forall>ref title c m2 desc.
        parseURIFields wd msg = Inr (ref, title)
        \<and> doCacheStuff n wd uri ref m1 = Some (Returns (Inr c), m2)
        \<and> fileMap c title = Some desc
      \<longrightarrow> (\<exists>m5 d.
             writer m5 = writer m2 @ d @ [URIStart uri [] (Size desc) False]
           \<and> (\<forall>x\<in>set d. code x = 102 \<or> code x = 104)
           \<and> (\<forall>e. Fetch wd (fetcher c) desc = Inl e \<longrightarrow> fails m5 True e)
           \<and> (\<forall>r e. Fetch wd (fetcher c) desc = Inr r \<and> Create wd filename = Inl e
                  \<longrightarrow> fails m5 True e)
           \<and> (\<forall>r w e. Fetch wd (fetcher c) desc = Inr r \<and> Create wd filename = Inr w
                    \<and> Copy wd w r = Inl e
                  \<longrightarrow> fails m5 True e)
           \<and> (\<forall>r w bytes e. Fetch wd (fetcher c) desc = Inr r \<and> Create wd filename = Inr w
                    \<and> Copy wd w r = Inr bytes \<and> CloseFile wd w = Some e
                  \<longrightarrow> fails m5 True e)
           \<and> (\<forall>r w bytes e. Fetch wd (fetcher c) desc = Inr r \<and> Create wd filename = Inr w
                    \<and> Copy wd w r = Inr bytes \<and> CloseFile wd w = None
                    \<and> CloseReader wd r = Some e
                  \<longrightarrow> fails m5 True e)
           \<and> (\<forall>r w bytes. Fetch wd (fetcher c) desc = Inr r \<and> Create wd filename = Inr w
                    \<and> Copy wd w r = Inr bytes \<and> CloseFile wd w = None
                    \<and> CloseReader wd r = None
                    \<and> digestDiffers (Digest desc) (''sha256:'' @ SHA256 wd bytes) = Returns True
                  \<longrightarrow> fails m5 True
                        (DigestMismatch title (Digest desc) (''sha256:'' @ SHA256 wd bytes)))
           \<and> (\<forall>r w bytes. Fetch wd (fetcher c) desc = Inr r \<and> Create wd filename = Inr w
                    \<and> Copy wd w r = Inr bytes \<and> CloseFile wd w = None
                    \<and> CloseReader wd r = None
                    \<and> digestDiffers (Digest desc) (''sha256:'' @ SHA256 wd bytes) = Returns False
                  \<longrightarrow> acquire n wd msg m =
                        Some (Returns (True, None),
                              m5\<lparr>writer := writer m5 @
                                 [URIDone uri filename [] [] False False (Size desc)
                                    (SHA256 wd bytes)]\<rparr>)
                      \<and> handleURIAcquire n wd msg m =
                        Some (Returns (),
                              m5\<lparr>writer := writer m5 @
                                 [URIDone uri filename [] [] False False (Size desc)
                                    (SHA256 wd bytes)]\<rparr>)))"
    by (intro allI impI) (elim conjE, rule D)
  from A B C D' G show ?thesis
    by (intro conjI)
qed

theorem acquire_started_flag_witness:
  "acquire 0 (sampleWorld [])
     \<lparr>StatusCode = 600, Description = ''URI Acquire'', Fields = Map.empty\<rparr>
     (New \<lparr>pending = [], final = EOF\<rparr>) =
     Some (Returns (False, Some (MissingField ''Target-Repo-URI'')),
           Statusf [] (ParsingMsg \<lparr>StatusCode = 600, Description = ''URI Acquire'', Fields = Map.empty\<rparr>)
             (New \<lparr>pending = [], final = EOF\<rparr>))
   \<and> (\<exists>m2. acquire 0 ((sampleWorld [])\<lparr>NewResolver := (\<lambda>d. Inl (ExternalError ''no credentials''))\<rparr>)
                sampleRequest (New \<lparr>pending = [], final = EOF\<rparr>) =
              Some (Returns (False,
                      Some (CreateResolverFailed ''reg.example'' ''reg.example/repo:latest''
                              (ExternalError ''no credentials''))), m2))
   \<and> (\<exists>m2. acquire (Suc 0) (sampleWorld [])
                (sampleRequest\<lparr>Fields := [FieldURI \<mapsto> ''oci://reg.example/repo:latest/Missing'',
                                           FieldFilename \<mapsto> ''/tmp/Missing'']\<rparr>)
                (New \<lparr>pending = [], final = EOF\<rparr>) =
              Some (Returns (False, Some (FileNotFound ''reg.example/repo:latest'' ''Missing'')), m2)
            \<and> handleURIAcquire (Suc 0) (sampleWorld [])
                (sampleRequest\<lparr>Fields := [FieldURI \<mapsto> ''oci://reg.example/repo:latest/Missing'',
                                           FieldFilename \<mapsto> ''/tmp/Missing'']\<rparr>)
                (New \<lparr>pending = [], final = EOF\<rparr>) =
              Some (Returns (),
                    m2\<lparr>writer := writer m2 @
                       [URIStart ''oci://reg.example/repo:latest/Missing'' [] 0 False,
                        URIFailure ''oci://reg.example/repo:latest/Missing''
                          (FileNotFound ''reg.example/repo:latest'' ''Missing'')
                          (FileNotFound ''reg.example/repo:latest'' ''Missing'') False False]\<rparr>))
   \<and> (\<exists>m5. acquire (Suc 0)
                ((sampleWorld [])\<lparr>Copy := (\<lambda>w r. Inl (ExternalError ''no space left on device''))\<rparr>)
                sampleRequest (New \<lparr>pending = [], final = EOF\<rparr>) =
              Some (Returns (True, Some (ExternalError ''no space left on device'')), m5)
            \<and> last (writer m5) = URIStart ''oci://reg.example/repo:latest/Packages'' [] 4 False
            \<and> handleURIAcquire (Suc 0)
                ((sampleWorld [])\<lparr>Copy := (\<lambda>w r. Inl (ExternalError ''no space left on device''))\<rparr>)
                sampleRequest (New \<lparr>pending = [], final = EOF\<rparr>) =
              Some (Returns (),
                    m5\<lparr>writer := writer m5 @
                       [URIFailure ''oci://reg.example/repo:latest/Packages''
                          (ExternalError ''no space left on device'')
                          (ExternalError ''no space left on device'') False False]\<rparr>))"
proof -
  let ?m = "New \<lparr>pending = [], final = EOF\<rparr>"
  let ?ref = "\<lparr>refString = ''reg.example/repo:latest'', refDomain = ''reg.example''\<rparr>"
  let ?c = "\<lparr>fetcher = 0, fileMap = [''Packages'' \<mapsto> sampleLayer ''sha256:1b'']\<rparr>"
  have fresh: "cacheByOCIRef (Statusf u t ?m) ''reg.example/repo:latest'' = None" for u t
    by (simp add: Statusf_def New_def)
  \<comment> \<open>the fields cannot be parsed\<close>
  let ?empty = "\<lparr>StatusCode = 600, Description = ''URI Acquire'', Fields = Map.empty\<rparr>"
  have pa: "parseURIFields (sampleWorld []) ?empty = Inl (MissingField ''Target-Repo-URI'')"
    by (simp add: parseURIFields_def FieldOf_def FieldTargetRepoURI_def)
  have ua: "FieldOf ?empty FieldURI = []"
    by (simp add: FieldOf_def)
  from acquire_started_flag [where n = 0 and wd = "sampleWorld []" and msg = ?empty and m = ?m,
       THEN conjunct1, rule_format, OF pa]
  have A: "acquire 0 (sampleWorld []) ?empty ?m =
             Some (Returns (False, Some (MissingField ''Target-Repo-URI'')),
                   Statusf [] (ParsingMsg ?empty) ?m)"
    by (simp add: ua)
  \<comment> \<open>no resolver can be made\<close>
  let ?w2 = "(sampleWorld [])\<lparr>NewResolver := (\<lambda>d. Inl (ExternalError ''no credentials''))\<rparr>"
  let ?e2 = "CreateResolverFailed ''reg.example'' ''reg.example/repo:latest''
               (ExternalError ''no credentials'')"
  have pb: "parseURIFields ?w2 sampleRequest = Inr (?ref, ''Packages'')"
    by (rule sample_parse_general (1) [where h = "[]"]) simp
  have "\<exists>m2. doCacheStuff 0 ?w2 (FieldOf sampleRequest FieldURI) ?ref
               (Statusf (FieldOf sampleRequest FieldURI) (ParsingMsg sampleRequest) ?m) =
             Some (Returns (Inl ?e2), m2)"
    by (simp add: doCacheStuff_def fresh ociResolver_def Let_def)
  then obtain m2b where cb: "doCacheStuff 0 ?w2 (FieldOf sampleRequest FieldURI) ?ref
               (Statusf (FieldOf sampleRequest FieldURI) (ParsingMsg sampleRequest) ?m) =
             Some (Returns (Inl ?e2), m2b)"
    by blast
  from acquire_started_flag [where n = 0 and wd = ?w2 and msg = sampleRequest and m = ?m,
       THEN conjunct2, THEN conjunct1, rule_format, OF conjI [OF pb cb]]
  have B: "\<exists>m2. acquire 0 ?w2 sampleRequest ?m = Some (Returns (False, Some ?e2), m2)"
    by blast
  \<comment> \<open>the index has no such file\<close>
  let ?missing = "sampleRequest\<lparr>Fields := [FieldURI \<mapsto> ''oci://reg.example/repo:latest/Missing'',
                                           FieldFilename \<mapsto> ''/tmp/Missing'']\<rparr>"
  have um: "FieldOf ?missing FieldURI = ''oci://reg.example/repo:latest/Missing''"
    by (simp add: field_eval)
  have pc: "parseURIFields (sampleWorld []) ?missing = Inr (?ref, ''Missing'')"
    by (rule sample_parse_general (2) [where h = "[]"]) simp
  from sample_cache [OF fresh] obtain m2c where
    cc: "doCacheStuff (Suc 0) (sampleWorld []) (FieldOf ?missing FieldURI) ?ref
            (Statusf (FieldOf ?missing FieldURI) (ParsingMsg ?missing) ?m) =
          Some (Returns (Inr ?c), m2c)"
    by blast
  have lc: "fileMap ?c ''Missing'' = None" by simp
  from acquire_started_flag [where n = "Suc 0" and wd = "sampleWorld []" and msg = ?missing and m = ?m,
       THEN conjunct2, THEN conjunct2, THEN conjunct1, rule_format,
       OF conjI [OF pc conjI [OF cc lc]]]
  have C: "\<exists>m2. acquire (Suc 0) (sampleWorld []) ?missing ?m =
              Some (Returns (False, Some (FileNotFound ''reg.example/repo:latest'' ''Missing'')), m2)
            \<and> handleURIAcquire (Suc 0) (sampleWorld []) ?missing ?m =
              Some (Returns (),
                    m2\<lparr>writer := writer m2 @
                       [URIStart ''oci://reg.example/repo:latest/Missing'' [] 0 False,
                        URIFailure ''oci://reg.example/repo:latest/Missing''
                          (FileNotFound ''reg.example/repo:latest'' ''Missing'')
                          (FileNotFound ''reg.example/repo:latest'' ''Missing'') False False]\<rparr>)"
    by (simp add: um)
  \<comment> \<open>the disk is full\<close>
  let ?w4 = "(sampleWorld [])\<lparr>Copy := (\<lambda>w r. Inl (ExternalError ''no space left on device''))\<rparr>"
  let ?e4 = "ExternalError ''no space left on device''"
  have us: "FieldOf sampleRequest FieldURI = ''oci://reg.example/repo:latest/Packages''"
    "FieldOf sampleRequest FieldFilename = ''/tmp/Packages''"
    by (simp_all add: field_eval)
  have pd: "parseURIFields ?w4 sampleRequest = Inr (?ref, ''Packages'')"
    by (rule sample_parse_general (1) [where h = "[]"]) simp
  from sample_cache_copy [OF fresh] obtain m2d where
    cd: "doCacheStuff (Suc 0) ?w4 (FieldOf sampleRequest FieldURI) ?ref
            (Statusf (FieldOf sampleRequest FieldURI) (ParsingMsg sampleRequest) ?m) =
          Some (Returns (Inr ?c), m2d)"
    by blast
  have ld: "fileMap ?c ''Packages'' = Some (sampleLayer ''sha256:1b'')" by simp
  note inst = acquire_started_flag [where n = "Suc 0" and wd = ?w4 and msg = sampleRequest and m = ?m,
       THEN conjunct2, THEN conjunct2, THEN conjunct2, THEN conjunct1, rule_format,
       OF conjI [OF pd conjI [OF cd ld]]]
  have io: "Fetch ?w4 (fetcher ?c) (sampleLayer ''sha256:1b'') = Inr 4
              \<and> Create ?w4 (FieldOf sampleRequest FieldFilename) = Inr 5
              \<and> Copy ?w4 5 4 = Inl ?e4"
    by (simp add: us sample_io)
  have D: "\<exists>m5. acquire (Suc 0) ?w4 sampleRequest ?m = Some (Returns (True, Some ?e4), m5)
            \<and> last (writer m5) = URIStart ''oci://reg.example/repo:latest/Packages'' [] 4 False
            \<and> handleURIAcquire (Suc 0) ?w4 sampleRequest ?m =
              Some (Returns (),
                    m5\<lparr>writer := writer m5 @
                       [URIFailure ''oci://reg.example/repo:latest/Packages'' ?e4 ?e4 False False]\<rparr>)"
    using inst
    apply (elim exE conjE)
    subgoal premises prems for m5 d
      using prems(1) prems(5) [rule_format, OF io]
      by (intro exI [where x = m5]) (simp add: us sampleLayer_def)
    done
  from A B C D show ?thesis by blast
qed

section \<open>The reference cache\<close>

text \<open>
  Claim C7.  A call of \<open>doCacheStuff\<close> for a reference whose key has an entry returns that
  entry and leaves the whole state as it is, messages included, whatever the world
  answers: nothing is resolved or built again.  A call that returns an entry has stored
  it under the key of its reference; it changes no other key, and no call of
  \<open>doCacheStuff\<close>, \<open>acquire\<close> or \<open>Run\<close> removes or replaces an entry that is there.  So an
  entry once stored is what every later call for the reference returns.
\<close>

theorem cache_invariant:
  "(cacheByOCIRef m (refString ref) = Some e \<longrightarrow> doCacheStuff n wd uri ref m = Some (Returns (Inr e), m))
   \<and> (doCacheStuff n wd uri ref m = Some (Returns (Inr e), m') \<longrightarrow>
        cacheByOCIRef m' (refString ref) = Some e)
   \<and> (doCacheStuff n wd uri ref m = Some (res, m') \<longrightarrow>
        (\<forall>k. k \<noteq> refString ref \<longrightarrow> cacheByOCIRef m' k = cacheByOCIRef m k)
        \<and> (\<forall>k x. cacheByOCIRef m k = Some x \<longrightarrow> cacheByOCIRef m' k = Some x))
   \<and> (acquire n wd msg m = Some (ares, m') \<longrightarrow>
        (\<forall>k x. cacheByOCIRef m k = Some x \<longrightarrow> cacheByOCIRef m' k = Some x))
   \<and> (Run n wd version m = Some (rres, m') \<longrightarrow>
        (\<forall>k x. cacheByOCIRef m k = Some x \<longrightarrow> cacheByOCIRef m' k = Some x))
   \<and> (doCacheStuff n wd uri ref m = Some (Returns (Inr e), m1) \<and> loop n2 wd2 m1 = Some (lres, m2) \<longrightarrow>
        doCacheStuff n3 wd3 uri3 ref m2 = Some (Returns (Inr e), m2))"
proof -
  have r: "Run n wd version m = Some (rres, m') \<longrightarrow>
        (\<forall>k x. cacheByOCIRef m k = Some x \<longrightarrow> cacheByOCIRef m' k = Some x)"
    unfolding Run_def using loop_cache [of n wd _ rres m'] by fastforce
  have l: "doCacheStuff n wd uri ref m = Some (Returns (Inr e), m1) \<and> loop n2 wd2 m1 = Some (lres, m2) \<longrightarrow>
        doCacheStuff n3 wd3 uri3 ref m2 = Some (Returns (Inr e), m2)"
    using doCacheStuff_stored loop_cache doCacheStuff_hit by blast
  show ?thesis
    using doCacheStuff_hit [of m ref e n wd uri] doCacheStuff_stored [of n wd uri ref m e m']
      doCacheStuff_others [of n wd uri ref m res m'] acquire_cache [of n wd msg m ares m'] r l
    by blast
qed

theorem cache_invariant_witness:
  "\<exists>m1. doCacheStuff (Suc 0) (sampleWorld []) []
           \<lparr>refString = ''reg.example/repo:latest'', refDomain = ''reg.example''\<rparr>
           (New \<lparr>pending = [], final = EOF\<rparr>) =
         Some (Returns (Inr \<lparr>fetcher = 0, fileMap = [''Packages'' \<mapsto> sampleLayer ''sha256:1b'']\<rparr>), m1)
      \<and> cacheByOCIRef m1 ''reg.example/repo:latest'' =
          Some \<lparr>fetcher = 0, fileMap = [''Packages'' \<mapsto> sampleLayer ''sha256:1b'']\<rparr>
      \<and> doCacheStuff 0 (sampleWorld ''ff'') ''oci://x''
           \<lparr>refString = ''reg.example/repo:latest'', refDomain = ''reg.example''\<rparr> m1 =
         Some (Returns (Inr \<lparr>fetcher = 0, fileMap = [''Packages'' \<mapsto> sampleLayer ''sha256:1b'']\<rparr>), m1)"
proof -
  let ?ref = "\<lparr>refString = ''reg.example/repo:latest'', refDomain = ''reg.example''\<rparr>"
  let ?c = "\<lparr>fetcher = 0, fileMap = [''Packages'' \<mapsto> sampleLayer ''sha256:1b'']\<rparr>"
  have "cacheByOCIRef (New \<lparr>pending = [], final = EOF\<rparr>) ''reg.example/repo:latest'' = None"
    by (simp add: New_def)
  from sample_cache [OF this, of "[]" "[]"] obtain m1 where
    d: "doCacheStuff (Suc 0) (sampleWorld []) [] ?ref (New \<lparr>pending = [], final = EOF\<rparr>) =
          Some (Returns (Inr ?c), m1)"
    by blast
  from cache_invariant [where m = "New \<lparr>pending = [], final = EOF\<rparr>" and ref = ?ref and e = ?c
        and n = "Suc 0" and wd = "sampleWorld []" and uri = "[]" and m' = m1,
        THEN conjunct2, THEN conjunct1, rule_format, OF d]
  have s: "cacheByOCIRef m1 (refString ?ref) = Some ?c" .
  from cache_invariant [where m = m1 and ref = ?ref and e = ?c and n = 0
        and wd = "sampleWorld ''ff''" and uri = "''oci://x''",
        THEN conjunct1, rule_format, OF s]
  have "doCacheStuff 0 (sampleWorld ''ff'') ''oci://x'' ?ref m1 = Some (Returns (Inr ?c), m1)" .
  with d s show ?thesis by auto
qed

section \<open>The protocol driver at the end of the input\<close>

lemma ReadMessage_closed_pipe:
  "message r = None \<Longrightarrow> pending (reader r) = [] \<Longrightarrow> final (reader r) = ErrClosedPipe \<Longrightarrow>
     ReadMessage n r errs = None"
proof (induction n arbitrary: errs)
  case 0
  then show ?case by simp
next
  case (Suc n)
  have "ReadLine r = ((None, Some ErrClosedPipe), r)"
    using Suc.prems by (simp add: ReadLine_def readHeader_def ReadString_def)
  then show ?case
    using Suc by simp
qed

lemma Run_closed_pipe_never_returns:
  "Run n wd version (New \<lparr>pending = [], final = ErrClosedPipe\<rparr>) = None"
proof (cases n)
  case 0
  then show ?thesis by (simp add: Run_def)
next
  case (Suc k)
  have "ReadMessage k (NewMessageReader \<lparr>pending = [], final = ErrClosedPipe\<rparr>) [] = None"
    by (rule ReadMessage_closed_pipe) (simp_all add: NewMessageReader_def)
  then show ?thesis
    using Suc by (simp add: Run_def New_def)
qed

text \<open>
  Claim C9, that \<open>Run\<close> ends at the end of the input without a \<open>401 General Failure\<close>,
  does not hold of the code.  On the input of one blank line followed by the end of the
  input, \<open>ReadMessage\<close> puts the error of the blank line and \<open>EOF\<close> into one error
  group, which \<^verbatim>\<open>errors.Is\<close> does not recognise as \<open>EOF\<close>, and \<open>Run\<close> writes the general
  failure before it returns.  (\<open>Run_closed_pipe_never_returns\<close>: on a pipe closed while
  no message is in progress, \<open>ReadMessage\<close> never returns.)
\<close>

theorem Run_blank_line_general_failure:
  "\<exists>m'. Run (Suc (Suc (Suc 0))) (sampleWorld []) ''0.1'' (New \<lparr>pending = [Byte (CHR 0x0A)], final = EOF\<rparr>) =
           Some (Returns (), m')
        \<and> writer m' =
            [Capabilities ''0.1'' 0,
             GeneralFailure
               (ErrorGroup ''Errors while reading message:''
                  [ErrorString ''not a header spec: Empty line'', EOF])]"
proof -
  let ?r0 = "NewMessageReader \<lparr>pending = [Byte (CHR 0x0A)], final = EOF\<rparr>"
  let ?r1 = "NewMessageReader \<lparr>pending = [], final = EOF\<rparr>"
  have t: "TrimSpace [CHR 0x0A] = []"
    by (simp add: trim_eval)
  have l1: "ReadLine ?r0 = ((None, Some (ErrorString ''not a header spec: Empty line'')), ?r1)"
    by (simp add: ReadLine_def readHeader_def ReadString_def NewMessageReader_def ParseHeader_def t)
  have l2: "ReadLine ?r1 = ((None, Some EOF), ?r1)"
    by (simp add: ReadLine_def readHeader_def ReadString_def NewMessageReader_def)
  have rm: "ReadMessage (Suc (Suc 0)) ?r0 [] =
     Some ((None, Some (ErrorGroup ''Errors while reading message:''
                  [ErrorString ''not a header spec: Empty line'', EOF])), ?r1)"
    by (simp add: l1 l2 errorGroup_def)
  show ?thesis
    by (simp add: Run_def New_def rm WriteCapabilities_def GeneralFailuref_def
             del: ReadMessage.simps)
qed

end
